theory Spec2Isabelle
  imports Complex_Main
begin

section \<open>Compile-time configuration\<close>

text \<open>
  \<^verbatim>\<open>CPUPipe.cpp\<close> is the only source file; \<^verbatim>\<open>config.h\<close>, \<^verbatim>\<open>Network.h\<close>,
  \<^verbatim>\<open>CPUPipe.h\<close> and \<^verbatim>\<open>Im2Col.h\<close> are not available. The constants they declare and
  whose values the source file does not fix are parameters of the model, collected in
  one record: the board size, the constant \<^verbatim>\<open>SQ2\<close> of the transform matrices, and the
  channel counts of \<^verbatim>\<open>Network\<close>.

  A \<^verbatim>\<open>float\<close> is modelled as a real number: rounding, infinities and NaN are outside
  the model. Loop counters and indices (\<^verbatim>\<open>int\<close>, \<^verbatim>\<open>size_t\<close>) start at zero and only
  grow, and are natural numbers; wrap-around of index arithmetic is outside the model.
  A \<^verbatim>\<open>std::vector<float>\<close> is a list. Reading \<open>xs ! i\<close> beyond the length is as
  unspecified here as it is undefined in C++, so the theorems carry the length
  hypotheses they need; a store \<open>xs[i := v]\<close> beyond the length leaves the list as it is.
\<close>

record config =
  BOARD_SIZE :: nat
  SQ2 :: real
  INPUT_CHANNELS :: nat
  OUTPUTS_POLICY :: nat
  OUTPUTS_VALUE :: nat

text \<open>
  Modelled from the spec: the Winograd constants of the missing header. The spec gives
  4x4 output tiles at stride 4, a 6x6 transform with 36 bands, and
  \<open>ceil(size/4)\<close> tiles in each dimension; the initialisers of \<^verbatim>\<open>Bt\<close> (36 values in
  rows of 6) and \<^verbatim>\<open>At\<close> (24 values in rows of 6) in the source agree.
\<close>

definition WINOGRAD_M :: nat where
  "WINOGRAD_M = 4"

definition WINOGRAD_ALPHA :: nat where
  "WINOGRAD_ALPHA = WINOGRAD_M + 3 - 1"

definition WINOGRAD_TILE :: nat where
  "WINOGRAD_TILE = WINOGRAD_ALPHA * WINOGRAD_ALPHA"

definition WINOGRAD_WTILES :: "config \<Rightarrow> nat" where
  "WINOGRAD_WTILES cfg =
     BOARD_SIZE cfg div WINOGRAD_M + (if BOARD_SIZE cfg mod WINOGRAD_M \<noteq> 0 then 1 else 0)"

definition WINOGRAD_P :: "config \<Rightarrow> nat" where
  "WINOGRAD_P cfg = WINOGRAD_WTILES cfg * WINOGRAD_WTILES cfg"

definition NUM_INTERSECTIONS :: "config \<Rightarrow> nat" where
  "NUM_INTERSECTIONS cfg = BOARD_SIZE cfg * BOARD_SIZE cfg"

section \<open>Winograd input transform\<close>

text \<open>Locals of \<^verbatim>\<open>winograd_transform_in\<close>: \<^verbatim>\<open>Wpad\<close>, \<^verbatim>\<open>buffersize\<close> and the matrix \<^verbatim>\<open>Bt\<close>.\<close>

definition Wpad :: "config \<Rightarrow> nat" where
  "Wpad cfg = 2 + WINOGRAD_M * WINOGRAD_WTILES cfg"

definition buffersize :: nat where
  "buffersize = 32"

definition Bt :: "config \<Rightarrow> real list" where
  "Bt cfg = (let s = SQ2 cfg in
     [1,  0,      -5/2,  0,      1, 0,
      0, -s,      -2,    s/2,    1, 0,
      0,  s,      -2,   -s/2,    1, 0,
      0, -s/2,    -1/2,  s,      1, 0,
      0,  s/2,    -1/2, -s,      1, 0,
      0,  1,       0,   -5/2,    0, 1])"

text \<open>
  The state the loop nest of \<^verbatim>\<open>winograd_transform_in\<close> works on: the padded plane, the
  scatter buffer with its offset and fill count, and the output \<^verbatim>\<open>V\<close>.
\<close>

record transform_in_state =
  st_in_pad :: "real list list"
  st_buffer :: "real list"
  st_buffer_offset :: nat
  st_buffer_entries :: nat
  st_V :: "real list"

text \<open>Lines 87-91: the plane of channel \<open>ch\<close> is copied into the interior of \<^verbatim>\<open>in_pad\<close>.\<close>

definition copy_plane :: "config \<Rightarrow> real list \<Rightarrow> nat \<Rightarrow> real list list \<Rightarrow> real list list" where
  "copy_plane cfg inp ch =
     fold (\<lambda>yin. fold (\<lambda>xin p.
            p[yin + 1 := (p ! (yin + 1))[xin + 1 :=
                 inp ! (ch * (BOARD_SIZE cfg * BOARD_SIZE cfg) + yin * BOARD_SIZE cfg + xin)]])
          [0..<BOARD_SIZE cfg])
       [0..<BOARD_SIZE cfg]"

text \<open>Lines 99-108: \<^verbatim>\<open>T1 = Bt . tile\<close>, every cell assigned before it is read.\<close>

definition tile_T1 :: "config \<Rightarrow> real list list \<Rightarrow> nat \<Rightarrow> nat \<Rightarrow> real list list" where
  "tile_T1 cfg in_pad yin xin =
     map (\<lambda>i. map (\<lambda>j.
            fold (\<lambda>k acc. acc + Bt cfg ! (i * WINOGRAD_ALPHA + k) * in_pad ! (yin + k) ! (xin + j))
              [0..<WINOGRAD_ALPHA] 0)
          [0..<WINOGRAD_ALPHA])
       [0..<WINOGRAD_ALPHA]"

text \<open>The accumulator of lines 112-115: cell \<open>(i, j)\<close> of \<^verbatim>\<open>T1 . B\<close>.\<close>

definition tile_acc :: "config \<Rightarrow> real list list \<Rightarrow> nat \<Rightarrow> nat \<Rightarrow> real" where
  "tile_acc cfg T1 i j =
     fold (\<lambda>k acc. acc + T1 ! i ! k * Bt cfg ! (j * WINOGRAD_ALPHA + k)) [0..<WINOGRAD_ALPHA] 0"

text \<open>Lines 110-118: the 36 values of the tile go into column \<^verbatim>\<open>buffer_entries\<close> of the buffer.\<close>

definition tile_to_buffer :: "config \<Rightarrow> real list list \<Rightarrow> nat \<Rightarrow> real list \<Rightarrow> real list" where
  "tile_to_buffer cfg T1 entries =
     fold (\<lambda>i. fold (\<lambda>j buf.
            buf[buffersize * (i * WINOGRAD_ALPHA + j) + entries := tile_acc cfg T1 i j])
          [0..<WINOGRAD_ALPHA])
       [0..<WINOGRAD_ALPHA]"

text \<open>Lines 127-131: the buffered columns are scattered into \<^verbatim>\<open>V\<close>.\<close>

definition flush_buffer :: "config \<Rightarrow> nat \<Rightarrow> real list \<Rightarrow> nat \<Rightarrow> nat \<Rightarrow> real list \<Rightarrow> real list" where
  "flush_buffer cfg C buf offset entries =
     fold (\<lambda>i. fold (\<lambda>entry V.
            V[i * C * WINOGRAD_P cfg + offset + entry := buf ! (i * buffersize + entry)])
          [0..<entries])
       [0..<WINOGRAD_ALPHA * WINOGRAD_ALPHA]"

text \<open>Lines 93-133: the body of the tile loops.\<close>

definition tile_step :: "config \<Rightarrow> nat \<Rightarrow> nat \<Rightarrow> nat \<Rightarrow> nat \<Rightarrow> transform_in_state \<Rightarrow> transform_in_state" where
  "tile_step cfg C ch block_y block_x st =
     (let yin = WINOGRAD_M * block_y;
          xin = WINOGRAD_M * block_x;
          T1 = tile_T1 cfg (st_in_pad st) yin xin;
          buf = tile_to_buffer cfg T1 (st_buffer_entries st) (st_buffer st);
          offset = (if st_buffer_entries st = 0
                    then ch * WINOGRAD_P cfg + block_y * WINOGRAD_WTILES cfg + block_x
                    else st_buffer_offset st);
          entries = st_buffer_entries st + 1
      in if entries \<ge> buffersize \<or>
            (ch = C - 1 \<and> block_x = WINOGRAD_WTILES cfg - 1 \<and> block_y = WINOGRAD_WTILES cfg - 1)
         then st\<lparr>st_buffer := buf, st_buffer_offset := offset, st_buffer_entries := 0,
                 st_V := flush_buffer cfg C buf offset entries (st_V st)\<rparr>
         else st\<lparr>st_buffer := buf, st_buffer_offset := offset, st_buffer_entries := entries\<rparr>)"

text \<open>Lines 86-136: the loop over the channels, each copying its plane and walking its tiles.\<close>

definition channel_step :: "config \<Rightarrow> real list \<Rightarrow> nat \<Rightarrow> nat \<Rightarrow> transform_in_state \<Rightarrow> transform_in_state" where
  "channel_step cfg inp C ch st =
     fold (\<lambda>block_y. fold (\<lambda>block_x. tile_step cfg C ch block_y block_x)
                       [0..<WINOGRAD_WTILES cfg])
       [0..<WINOGRAD_WTILES cfg]
       (st\<lparr>st_in_pad := copy_plane cfg inp ch (st_in_pad st)\<rparr>)"

text \<open>
  The state at entry: \<^verbatim>\<open>in_pad\<close> is zero-initialised; \<^verbatim>\<open>buffer\<close> is declared without an
  initialiser, so its cells hold unspecified values.
\<close>

definition transform_in_init :: "config \<Rightarrow> real list \<Rightarrow> transform_in_state" where
  "transform_in_init cfg V =
     \<lparr>st_in_pad = replicate (Wpad cfg) (replicate (Wpad cfg) 0),
      st_buffer = replicate (buffersize * WINOGRAD_ALPHA * WINOGRAD_ALPHA) undefined,
      st_buffer_offset = 0,
      st_buffer_entries = 0,
      st_V = V\<rparr>"

definition winograd_transform_in :: "config \<Rightarrow> real list \<Rightarrow> real list \<Rightarrow> nat \<Rightarrow> real list" where
  "winograd_transform_in cfg inp V C =
     st_V (fold (channel_step cfg inp C) [0..<C] (transform_in_init cfg V))"

section \<open>Batched matrix multiply\<close>

text \<open>
  \<^verbatim>\<open>cblas_sgemm\<close> belongs to an external library. Its model follows the interface of the
  reference BLAS for row-major storage: \<open>C := alpha * op(A) * op(B) + beta * C\<close>, where
  \<open>op\<close> transposes when the flag is set, each matrix is a vector with the offset of its
  first element and its leading dimension, and \<open>C\<close> is not read when \<open>beta\<close> is zero. The
  Eigen branch of the source computes the same cells through column-major maps.
\<close>

definition cblas_sgemm ::
  "bool \<Rightarrow> bool \<Rightarrow> nat \<Rightarrow> nat \<Rightarrow> nat \<Rightarrow> real \<Rightarrow> real list \<Rightarrow> nat \<Rightarrow> nat \<Rightarrow>
   real list \<Rightarrow> nat \<Rightarrow> nat \<Rightarrow> real \<Rightarrow> real list \<Rightarrow> nat \<Rightarrow> nat \<Rightarrow> real list" where
  "cblas_sgemm transA transB M N K alpha A offA lda B offB ldb beta Cm offC ldc =
     fold (\<lambda>i. fold (\<lambda>j Cm.
            Cm[offC + i * ldc + j :=
               (let dot = (\<Sum>l<K. (if transA then A ! (offA + l * lda + i) else A ! (offA + i * lda + l))
                               * (if transB then B ! (offB + j * ldb + l) else B ! (offB + l * ldb + j)))
                in if beta = 0 then alpha * dot else alpha * dot + beta * Cm ! (offC + i * ldc + j))])
          [0..<N])
       [0..<M] Cm"

definition winograd_sgemm :: "config \<Rightarrow> real list \<Rightarrow> real list \<Rightarrow> real list \<Rightarrow> nat \<Rightarrow> nat \<Rightarrow> real list" where
  "winograd_sgemm cfg U V M C K =
     fold (\<lambda>b M.
        (let offset_u = b * K * C;
             offset_v = b * C * WINOGRAD_P cfg;
             offset_m = b * K * WINOGRAD_P cfg
         in cblas_sgemm True False K (WINOGRAD_P cfg) C 1 U offset_u K V offset_v (WINOGRAD_P cfg)
              0 M offset_m (WINOGRAD_P cfg)))
       [0..<WINOGRAD_TILE] M"

section \<open>Winograd output transform\<close>

definition At :: "config \<Rightarrow> real list" where
  "At cfg = (let s = SQ2 cfg in
     [1, 1,    1,    1,      1,     0,
      0, s/2, -s/2,  s,     -s,     0,
      0, 1/2,  1/2,  2,      2,     0,
      0, s/4, -s/4,  2 * s, -2 * s, 1])"

text \<open>Lines 183-189: the 36 values of tile \<open>b\<close> of channel \<open>k\<close>, gathered from \<^verbatim>\<open>M\<close>.\<close>

definition gather_temp_m :: "config \<Rightarrow> real list \<Rightarrow> nat \<Rightarrow> nat \<Rightarrow> nat \<Rightarrow> real list list" where
  "gather_temp_m cfg M K k b =
     map (\<lambda>xi. map (\<lambda>nu. M ! ((xi * WINOGRAD_ALPHA + nu) * K * WINOGRAD_P cfg + k * WINOGRAD_P cfg + b))
                  [0..<WINOGRAD_ALPHA])
       [0..<WINOGRAD_ALPHA]"

text \<open>Lines 200-219: \<^verbatim>\<open>o = At . temp_m . A\<close>, by way of \<^verbatim>\<open>temp = At . temp_m\<close>.\<close>

definition tile_temp :: "config \<Rightarrow> real list list \<Rightarrow> real list list" where
  "tile_temp cfg temp_m =
     map (\<lambda>i. map (\<lambda>j.
            fold (\<lambda>q acc. acc + At cfg ! (i * WINOGRAD_ALPHA + q) * temp_m ! q ! j)
              [0..<WINOGRAD_ALPHA] 0)
          [0..<WINOGRAD_ALPHA])
       [0..<WINOGRAD_M]"

definition tile_o :: "config \<Rightarrow> real list list \<Rightarrow> real list list" where
  "tile_o cfg temp =
     map (\<lambda>i. map (\<lambda>j.
            fold (\<lambda>q acc. acc + temp ! i ! q * At cfg ! (j * WINOGRAD_ALPHA + q))
              [0..<WINOGRAD_ALPHA] 0)
          [0..<WINOGRAD_M])
       [0..<WINOGRAD_M]"

text \<open>Lines 176-228: the body of the tile loops, ending in the clipped stores.\<close>

definition out_tile :: "config \<Rightarrow> real list \<Rightarrow> nat \<Rightarrow> nat \<Rightarrow> nat \<Rightarrow> nat \<Rightarrow> real list \<Rightarrow> real list" where
  "out_tile cfg M K k block_x block_y Y =
     (let x = WINOGRAD_M * block_x;
          y = WINOGRAD_M * block_y;
          b = block_y * WINOGRAD_WTILES cfg + block_x;
          ot = tile_o cfg (tile_temp cfg (gather_temp_m cfg M K k b));
          y_ind = k * BOARD_SIZE cfg * BOARD_SIZE cfg + y * BOARD_SIZE cfg + x
      in fold (\<lambda>i. fold (\<lambda>j Y.
                if y + i < BOARD_SIZE cfg \<and> x + j < BOARD_SIZE cfg
                then Y[y_ind + i * BOARD_SIZE cfg + j := ot ! i ! j]
                else Y)
              [0..<WINOGRAD_M])
           [0..<WINOGRAD_M] Y)"

definition winograd_transform_out :: "config \<Rightarrow> real list \<Rightarrow> real list \<Rightarrow> nat \<Rightarrow> real list" where
  "winograd_transform_out cfg M Y K =
     fold (\<lambda>k. fold (\<lambda>block_x. fold (\<lambda>block_y. out_tile cfg M K k block_x block_y)
                                 [0..<WINOGRAD_WTILES cfg])
                     [0..<WINOGRAD_WTILES cfg])
       [0..<K] Y"

section \<open>Winograd convolution\<close>

text \<open>
  The division by \<^verbatim>\<open>outputs * filter_len\<close> is undefined for a zero divisor; the model
  returns \<open>None\<close> there. The scratch buffers \<^verbatim>\<open>V\<close> and \<^verbatim>\<open>M\<close> are passed by reference
  and come back changed, so they are part of the result.
\<close>

definition winograd_convolve3 ::
  "config \<Rightarrow> nat \<Rightarrow> real list \<Rightarrow> real list \<Rightarrow> real list \<Rightarrow> real list \<Rightarrow> real list \<Rightarrow>
   (real list \<times> real list \<times> real list) option" where
  "winograd_convolve3 cfg outputs input U V M output =
     (let filter_len = WINOGRAD_ALPHA * WINOGRAD_ALPHA
      in if outputs * filter_len = 0 then None
         else
           (let input_channels = length U div (outputs * filter_len);
                V1 = winograd_transform_in cfg input V input_channels;
                M1 = winograd_sgemm cfg U V1 M input_channels outputs;
                output1 = winograd_transform_out cfg M1 output outputs
            in Some (V1, M1, output1)))"

section \<open>Direct convolution, pooling, dense layers and batch normalisation\<close>

text \<open>
  Modelled from the spec: \<^verbatim>\<open>im2col<1>\<close> is declared in the missing \<^verbatim>\<open>Im2Col.h\<close>. For
  the 1x1 filter of the output heads the spec makes patch extraction an identity
  reshape: the first \<open>channels * NUM_INTERSECTIONS\<close> cells of the input are copied.
\<close>

definition im2col_1 :: "config \<Rightarrow> nat \<Rightarrow> real list \<Rightarrow> real list \<Rightarrow> real list" where
  "im2col_1 cfg channels input col =
     fold (\<lambda>i col. col[i := input ! i]) [0..<channels * NUM_INTERSECTIONS cfg] col"

text \<open>
  \<^verbatim>\<open>convolve<1>\<close>, the only instance the file uses. A zero divisor and a failed
  \<^verbatim>\<open>assert\<close> give \<open>None\<close>.
\<close>

definition convolve_1 ::
  "config \<Rightarrow> nat \<Rightarrow> real list \<Rightarrow> real list \<Rightarrow> real list \<Rightarrow> real list \<Rightarrow> real list option" where
  "convolve_1 cfg outputs input weights biases output =
     (let num_intersections = BOARD_SIZE cfg * BOARD_SIZE cfg;
          filter_len = 1 * 1
      in if length biases * filter_len = 0 then None
         else
           (let input_channels = length weights div (length biases * filter_len);
                filter_dim = filter_len * input_channels
            in if outputs * num_intersections \<noteq> length output then None
               else
                 (let col = im2col_1 cfg input_channels input
                              (replicate (filter_dim * BOARD_SIZE cfg * BOARD_SIZE cfg) 0);
                      output1 = cblas_sgemm False False outputs num_intersections filter_dim
                                  1 weights 0 filter_dim col 0 num_intersections
                                  0 output 0 num_intersections
                  in Some (fold (\<lambda>oi. fold (\<lambda>b out.
                                   out[oi * num_intersections + b :=
                                       out ! (oi * num_intersections + b) + biases ! oi])
                                 [0..<num_intersections])
                            [0..<outputs] output1))))"

definition avg_pool :: "nat \<Rightarrow> nat \<Rightarrow> real list \<Rightarrow> real list \<Rightarrow> real list" where
  "avg_pool spatial_size channels input output =
     fold (\<lambda>c output.
        output[c := fold (\<lambda>b val. val + input ! (c * spatial_size + b)) [0..<spatial_size] 0
                    / real spatial_size])
       [0..<channels] output"

definition relu :: "nat \<Rightarrow> real list \<Rightarrow> real list" where
  "relu spatial_size data =
     fold (\<lambda>b data. data[b := (if data ! b > 0 then data ! b else 0)]) [0..<spatial_size] data"

text \<open>
  \<^verbatim>\<open>cblas_sgemv\<close>, row-major and not transposed, as the reference BLAS has it:
  \<open>y := alpha * A * x + beta * y\<close>, with \<open>y\<close> not read when \<open>beta\<close> is zero.
\<close>

definition cblas_sgemv ::
  "nat \<Rightarrow> nat \<Rightarrow> real \<Rightarrow> real list \<Rightarrow> nat \<Rightarrow> real list \<Rightarrow> real \<Rightarrow> real list \<Rightarrow> real list" where
  "cblas_sgemv M N alpha A lda x beta y =
     fold (\<lambda>i y.
        y[i := (let dot = (\<Sum>l<N. A ! (i * lda + l) * x ! l)
                in if beta = 0 then alpha * dot else alpha * dot + beta * y ! i)])
       [0..<M] y"

definition innerproduct ::
  "nat \<Rightarrow> nat \<Rightarrow> real list \<Rightarrow> real list \<Rightarrow> real list \<Rightarrow> real list \<Rightarrow> real list" where
  "innerproduct inputs outputs input weights biases output =
     fold (\<lambda>oi out. out[oi := out ! oi + biases ! oi]) [0..<outputs]
       (cblas_sgemv outputs inputs 1 weights inputs input 0 output)"

definition lambda_ReLU :: "real \<Rightarrow> real" where
  "lambda_ReLU val = (if val > 0 then val else 0)"

text \<open>The pointer \<^verbatim>\<open>eltwise\<close> is an option: \<open>None\<close> is \<^verbatim>\<open>nullptr\<close>.\<close>

definition batchnorm ::
  "nat \<Rightarrow> nat \<Rightarrow> real list \<Rightarrow> real list \<Rightarrow> real list \<Rightarrow> real list option \<Rightarrow> real list" where
  "batchnorm spatial_size channels data means stddevs eltwise =
     fold (\<lambda>c data.
        (let mean = means ! c;
             scale_stddev = stddevs ! c
         in case eltwise of
              None \<Rightarrow>
                fold (\<lambda>b data.
                   data[c * spatial_size + b :=
                        lambda_ReLU (scale_stddev * (data ! (c * spatial_size + b) - mean))])
                  [0..<spatial_size] data
            | Some res \<Rightarrow>
                fold (\<lambda>b data.
                   data[c * spatial_size + b :=
                        lambda_ReLU (scale_stddev * (data ! (c * spatial_size + b) - mean)
                                     + res ! (c * spatial_size + b))])
                  [0..<spatial_size] data))
       [0..<channels] data"

definition batchnorm_no_relu ::
  "nat \<Rightarrow> nat \<Rightarrow> real list \<Rightarrow> real list \<Rightarrow> real list \<Rightarrow> real list" where
  "batchnorm_no_relu spatial_size channels data means stddevs =
     fold (\<lambda>c data.
        (let mean = means ! c;
             scale_stddev = stddevs ! c
         in fold (\<lambda>b data.
              data[c * spatial_size + b := scale_stddev * (data ! (c * spatial_size + b) - mean)])
            [0..<spatial_size] data))
       [0..<channels] data"

section \<open>The pipeline\<close>

text \<open>
  The members of \<^verbatim>\<open>ForwardPipeWeights\<close> that the source reads, and the members of
  \<^verbatim>\<open>CPUPipe\<close>. The shared pointer \<^verbatim>\<open>m_weights\<close> is empty until \<^verbatim>\<open>push_weights\<close> sets it.
\<close>

record ForwardPipeWeights =
  m_conv_weights :: "real list list"
  m_batchnorm_means :: "real list list"
  m_batchnorm_stddevs :: "real list list"
  m_se_weights :: "real list list"
  m_se_biases :: "real list list"
  w_conv_pol_w :: "real list"
  w_conv_val_w :: "real list"

record CPUPipe =
  m_input_channels :: nat
  m_weights :: "ForwardPipeWeights option"
  m_conv_pol_w :: "real list"
  m_conv_pol_b :: "real list"
  m_conv_val_w :: "real list"
  m_conv_val_b :: "real list"

definition initialize :: "nat \<Rightarrow> CPUPipe \<Rightarrow> CPUPipe" where
  "initialize channels pipe = pipe\<lparr>m_input_channels := channels\<rparr>"

text \<open>\<^verbatim>\<open>std::vector::resize(n, v)\<close>: the first \<open>n\<close> cells stay, new cells hold \<open>v\<close>.\<close>

definition resize :: "'a list \<Rightarrow> nat \<Rightarrow> 'a \<Rightarrow> 'a list" where
  "resize xs n v = take n xs @ replicate (n - length xs) v"

text \<open>
  \<^verbatim>\<open>push_weights\<close>: its first two parameters are unnamed in the source. The division by
  \<^verbatim>\<open>outputs\<close> is undefined for zero.
\<close>

definition push_weights ::
  "nat \<Rightarrow> nat \<Rightarrow> nat \<Rightarrow> ForwardPipeWeights \<Rightarrow> CPUPipe \<Rightarrow> CPUPipe option" where
  "push_weights filter_size channels outputs weights pipe =
     (if outputs = 0 then None
      else Some (pipe\<lparr>m_weights := Some weights,
                      m_conv_pol_w := w_conv_pol_w weights,
                      m_conv_pol_b := resize (m_conv_pol_b pipe)
                                        (length (w_conv_pol_w weights) div outputs) 0,
                      m_conv_val_w := w_conv_val_w weights,
                      m_conv_val_b := resize (m_conv_val_b pipe)
                                        (length (w_conv_val_w weights) div outputs) 0\<rparr>))"

definition lambda_Sig :: "real \<Rightarrow> real" where
  "lambda_Sig val = 1 / (1 + exp (- val))"

text \<open>Lines 453-463: the fused update of the SE block, three stores to each cell.\<close>

definition se_fuse :: "nat \<Rightarrow> nat \<Rightarrow> real list \<Rightarrow> real list \<Rightarrow> real list \<Rightarrow> real list" where
  "se_fuse output_channels num_intersections se_fc2 res conv_out =
     fold (\<lambda>c. let w = lambda_Sig (se_fc2 ! c) in
        fold (\<lambda>b conv_out.
           (let idx = c * num_intersections + b;
                co1 = conv_out[idx := conv_out ! idx * w];
                co2 = co1[idx := co1 ! idx + (se_fc2 ! (output_channels + c) + res ! idx)]
            in co2[idx := (if co2 ! idx > 0 then co2 ! idx else 0)]))
          [0..<num_intersections])
       [0..<output_channels] conv_out"

text \<open>The vectors \<^verbatim>\<open>forward\<close> allocates and carries through the residual tower.\<close>

record forward_state =
  f_conv_out :: "real list"
  f_conv_in :: "real list"
  f_res :: "real list"
  f_V :: "real list"
  f_M :: "real list"
  f_se_pool :: "real list"
  f_se_fc1 :: "real list"
  f_se_fc2 :: "real list"

text \<open>Lines 441-463: the SE block of one iteration, on the state after the two convolutions.\<close>

definition se_block :: "config \<Rightarrow> nat \<Rightarrow> ForwardPipeWeights \<Rightarrow> nat \<Rightarrow> forward_state \<Rightarrow> forward_state" where
  "se_block cfg output_channels w i st =
     (let pool = avg_pool (NUM_INTERSECTIONS cfg) output_channels (f_conv_out st) (f_se_pool st);
          fc1 = relu (output_channels div 2)
                  (innerproduct output_channels (output_channels div 2) pool
                     (m_se_weights w ! (i - 1)) (m_se_biases w ! (i - 1)) (f_se_fc1 st));
          fc2 = innerproduct (output_channels div 2) (output_channels * 2) fc1
                  (m_se_weights w ! i) (m_se_biases w ! i) (f_se_fc2 st)
      in st\<lparr>f_se_pool := pool, f_se_fc1 := fc1, f_se_fc2 := fc2,
             f_conv_out := se_fuse output_channels (NUM_INTERSECTIONS cfg) fc2 (f_res st) (f_conv_out st)\<rparr>)"

text \<open>Lines 425-463: the body of the loop over the residual blocks.\<close>

definition residual_block ::
  "config \<Rightarrow> CPUPipe \<Rightarrow> ForwardPipeWeights \<Rightarrow> nat \<Rightarrow> forward_state \<Rightarrow> forward_state option" where
  "residual_block cfg pipe w i st =
     (let output_channels = m_input_channels pipe;
          st1 = st\<lparr>f_conv_out := f_conv_in st, f_conv_in := f_conv_out st\<rparr>
      in case winograd_convolve3 cfg output_channels (f_conv_in st1) (m_conv_weights w ! i)
                (f_V st1) (f_M st1) (f_conv_out st1) of
           None \<Rightarrow> None
         | Some (V1, M1, out1) \<Rightarrow>
             (let st2 = st1\<lparr>f_V := V1, f_M := M1,
                            f_conv_out := batchnorm (NUM_INTERSECTIONS cfg) output_channels out1
                                          (m_batchnorm_means w ! i) (m_batchnorm_stddevs w ! i) None\<rparr>;
                  st3 = st2\<lparr>f_conv_in := f_res st2, f_res := f_conv_in st2\<rparr>;
                  st4 = st3\<lparr>f_conv_out := f_conv_in st3, f_conv_in := f_conv_out st3\<rparr>
              in case winograd_convolve3 cfg output_channels (f_conv_in st4) (m_conv_weights w ! (i + 1))
                        (f_V st4) (f_M st4) (f_conv_out st4) of
                   None \<Rightarrow> None
                 | Some (V2, M2, out2) \<Rightarrow>
                     Some (se_block cfg output_channels w i
                       (st4\<lparr>f_V := V2, f_M := M2,
                            f_conv_out := batchnorm_no_relu (NUM_INTERSECTIONS cfg) output_channels out2
                                          (m_batchnorm_means w ! (i + 1))
                                          (m_batchnorm_stddevs w ! (i + 1))\<rparr>))))"

text \<open>Line 424: \<^verbatim>\<open>for (i = 1; i < m_conv_weights.size(); i += 2)\<close>.\<close>

function residual_tower ::
  "config \<Rightarrow> CPUPipe \<Rightarrow> ForwardPipeWeights \<Rightarrow> nat \<Rightarrow> forward_state \<Rightarrow> forward_state option" where
  "residual_tower cfg pipe w i st =
     (if i < length (m_conv_weights w)
      then (case residual_block cfg pipe w i st of
              None \<Rightarrow> None
            | Some st1 \<Rightarrow> residual_tower cfg pipe w (i + 2) st1)
      else Some st)"
  by pat_completeness auto
termination
  by (relation "measure (\<lambda>(cfg, pipe, w, i, st). length (m_conv_weights w) - i)") auto

declare residual_tower.simps [simp del]

text \<open>Lines 399-422: the input convolution and the vectors allocated before the tower.\<close>

definition input_convolution ::
  "config \<Rightarrow> CPUPipe \<Rightarrow> ForwardPipeWeights \<Rightarrow> real list \<Rightarrow> forward_state option" where
  "input_convolution cfg pipe w input =
     (let output_channels = m_input_channels pipe;
          input_channels = max output_channels (INPUT_CHANNELS cfg)
      in case winograd_convolve3 cfg output_channels input (m_conv_weights w ! 0)
                (replicate (WINOGRAD_TILE * input_channels * WINOGRAD_P cfg) 0)
                (replicate (WINOGRAD_TILE * output_channels * WINOGRAD_P cfg) 0)
                (replicate (output_channels * NUM_INTERSECTIONS cfg) 0) of
           None \<Rightarrow> None
         | Some (V1, M1, out1) \<Rightarrow>
             Some \<lparr>f_conv_out = batchnorm (NUM_INTERSECTIONS cfg) output_channels out1
                                (m_batchnorm_means w ! 0) (m_batchnorm_stddevs w ! 0) None,
                   f_conv_in = replicate (output_channels * NUM_INTERSECTIONS cfg) 0,
                   f_res = replicate (output_channels * NUM_INTERSECTIONS cfg) 0,
                   f_V = V1, f_M = M1,
                   f_se_pool = replicate output_channels 0,
                   f_se_fc1 = replicate (output_channels div 2) 0,
                   f_se_fc2 = replicate (output_channels * 2) 0\<rparr>)"

text \<open>
  \<^verbatim>\<open>forward\<close> returns the two output vectors the caller passed in. An empty
  \<^verbatim>\<open>m_weights\<close> cannot be dereferenced: \<open>None\<close>.
\<close>

definition forward ::
  "config \<Rightarrow> CPUPipe \<Rightarrow> real list \<Rightarrow> real list \<Rightarrow> real list \<Rightarrow> (real list \<times> real list) option" where
  "forward cfg pipe input output_pol output_val =
     (case m_weights pipe of
        None \<Rightarrow> None
      | Some w \<Rightarrow>
          (case input_convolution cfg pipe w input of
             None \<Rightarrow> None
           | Some st0 \<Rightarrow>
               (case residual_tower cfg pipe w 1 st0 of
                  None \<Rightarrow> None
                | Some st \<Rightarrow>
                    (case convolve_1 cfg (OUTPUTS_POLICY cfg) (f_conv_out st)
                            (m_conv_pol_w pipe) (m_conv_pol_b pipe) output_pol of
                       None \<Rightarrow> None
                     | Some pol \<Rightarrow>
                         (case convolve_1 cfg (OUTPUTS_VALUE cfg) (f_conv_out st)
                                 (m_conv_val_w pipe) (m_conv_val_b pipe) output_val of
                            None \<Rightarrow> None
                          | Some val \<Rightarrow> Some (pol, val))))))"

section \<open>Example inputs\<close>

text \<open>Small concrete inputs, used where a property is instantiated.\<close>

definition example_cfg :: config where
  "example_cfg = \<lparr>BOARD_SIZE = 1, SQ2 = sqrt 2, INPUT_CHANNELS = 1, OUTPUTS_POLICY = 1, OUTPUTS_VALUE = 1\<rparr>"

definition se_example_weights :: ForwardPipeWeights where
  "se_example_weights = \<lparr>m_conv_weights = [], m_batchnorm_means = [], m_batchnorm_stddevs = [],
      m_se_weights = [[], []], m_se_biases = [[], [0, 0]], w_conv_pol_w = [], w_conv_val_w = []\<rparr>"

definition se_example_state :: forward_state where
  "se_example_state = \<lparr>f_conv_out = [3], f_conv_in = [0], f_res = [1], f_V = [], f_M = [],
      f_se_pool = [0], f_se_fc1 = [], f_se_fc2 = [0, 0]\<rparr>"

section \<open>Auxiliary notions and the specification's wording\<close>

text \<open>
  A sequence of stores \<^verbatim>\<open>xs[i] = v\<close>, applied to a vector in order. The loops that only store
  values computed from other vectors are sequences of such stores.
\<close>

definition apply_stores :: "(nat \<times> 'a) list \<Rightarrow> 'a list \<Rightarrow> 'a list" where
  "apply_stores ws xs = fold (\<lambda>(i, v) xs. xs[i := v]) ws xs"

text \<open>
  The stores of \<^verbatim>\<open>winograd_transform_out\<close>, in the order of its loops: those of one tile
  (lines 221-228), and those of all tiles of all channels.
\<close>

definition out_tile_stores :: "config \<Rightarrow> real list \<Rightarrow> nat \<Rightarrow> nat \<Rightarrow> nat \<Rightarrow> nat \<Rightarrow> (nat \<times> real) list" where
  "out_tile_stores cfg M K k block_x block_y =
     (let x = WINOGRAD_M * block_x;
          y = WINOGRAD_M * block_y;
          b = block_y * WINOGRAD_WTILES cfg + block_x;
          ot = tile_o cfg (tile_temp cfg (gather_temp_m cfg M K k b));
          y_ind = k * BOARD_SIZE cfg * BOARD_SIZE cfg + y * BOARD_SIZE cfg + x
      in concat (map (\<lambda>i. concat (map (\<lambda>j.
                if y + i < BOARD_SIZE cfg \<and> x + j < BOARD_SIZE cfg
                then [(y_ind + i * BOARD_SIZE cfg + j, ot ! i ! j)]
                else [])
              [0..<WINOGRAD_M]))
           [0..<WINOGRAD_M]))"

definition winograd_transform_out_stores :: "config \<Rightarrow> real list \<Rightarrow> nat \<Rightarrow> (nat \<times> real) list" where
  "winograd_transform_out_stores cfg M K =
     concat (map (\<lambda>k. concat (map (\<lambda>block_x. concat (map (\<lambda>block_y.
               out_tile_stores cfg M K k block_x block_y)
             [0..<WINOGRAD_WTILES cfg]))
           [0..<WINOGRAD_WTILES cfg]))
       [0..<K])"

text \<open>
  The input transform as section 4.1 of the specification words it, without the buffer:
  for each channel the plane is copied into the zero-padded array, and for each tile the
  36 values of \<^verbatim>\<open>Bt . tile . B\<close> are stored straight into \<^verbatim>\<open>V\<close>, value \<open>band\<close> of tile
  \<open>tile_index\<close> of channel \<open>ch\<close> at \<open>band * C * P + ch * P + tile_index\<close>.
\<close>

definition winograd_transform_in_direct :: "config \<Rightarrow> real list \<Rightarrow> real list \<Rightarrow> nat \<Rightarrow> real list" where
  "winograd_transform_in_direct cfg inp V C =
     snd (fold (\<lambda>ch (in_pad, V).
            (let in_pad1 = copy_plane cfg inp ch in_pad
             in (in_pad1,
                 fold (\<lambda>block_y. fold (\<lambda>block_x V.
                        (let T1 = tile_T1 cfg in_pad1 (WINOGRAD_M * block_y) (WINOGRAD_M * block_x)
                         in fold (\<lambda>i. fold (\<lambda>j V.
                                V[(i * WINOGRAD_ALPHA + j) * C * WINOGRAD_P cfg + ch * WINOGRAD_P cfg
                                    + (block_y * WINOGRAD_WTILES cfg + block_x)
                                  := tile_acc cfg T1 i j])
                              [0..<WINOGRAD_ALPHA])
                            [0..<WINOGRAD_ALPHA] V))
                      [0..<WINOGRAD_WTILES cfg])
                   [0..<WINOGRAD_WTILES cfg] V)))
          [0..<C] (replicate (Wpad cfg) (replicate (Wpad cfg) 0), V))"

text \<open>
  Auxiliary notions for the proofs about the input transform: the content of \<^verbatim>\<open>in_pad\<close>
  after the planes of the first \<open>n\<close> channels were copied into it; value \<open>band\<close> of the
  tile with running number \<open>n\<close> (channel \<open>n div P\<close>, tile \<open>n mod P\<close>); and the vector
  \<^verbatim>\<open>V\<close> once the tiles with running numbers below \<open>n\<close> are in place.
\<close>

definition in_pad_upto :: "config \<Rightarrow> real list \<Rightarrow> nat \<Rightarrow> real list list" where
  "in_pad_upto cfg inp n =
     fold (copy_plane cfg inp) [0..<n] (replicate (Wpad cfg) (replicate (Wpad cfg) 0))"

definition tile_value :: "config \<Rightarrow> real list \<Rightarrow> nat \<Rightarrow> nat \<Rightarrow> real" where
  "tile_value cfg inp n band =
     tile_acc cfg
       (tile_T1 cfg (in_pad_upto cfg inp (Suc (n div WINOGRAD_P cfg)))
          (WINOGRAD_M * (n mod WINOGRAD_P cfg div WINOGRAD_WTILES cfg))
          (WINOGRAD_M * (n mod WINOGRAD_WTILES cfg)))
       (band div WINOGRAD_ALPHA) (band mod WINOGRAD_ALPHA)"

definition scatter :: "config \<Rightarrow> real list \<Rightarrow> nat \<Rightarrow> real list \<Rightarrow> nat \<Rightarrow> real list" where
  "scatter cfg inp C V0 n =
     map (\<lambda>idx. if idx < WINOGRAD_TILE * (C * WINOGRAD_P cfg) \<and> idx mod (C * WINOGRAD_P cfg) < n
                then tile_value cfg inp (idx mod (C * WINOGRAD_P cfg)) (idx div (C * WINOGRAD_P cfg))
                else V0 ! idx)
       [0..<length V0]"

text \<open>
  The invariant of the tile loops of \<^verbatim>\<open>winograd_transform_in\<close> after \<open>n\<close> tiles: the buffer
  holds the last \<^verbatim>\<open>buffer_entries\<close> tiles in its first columns, \<^verbatim>\<open>buffer_offset\<close> is the
  running number of the first of them, all earlier tiles are in \<^verbatim>\<open>V\<close>, and the buffer is
  empty after the last tile.
\<close>

definition transform_in_inv ::
  "config \<Rightarrow> real list \<Rightarrow> nat \<Rightarrow> real list \<Rightarrow> nat \<Rightarrow> transform_in_state \<Rightarrow> bool" where
  "transform_in_inv cfg inp C V0 n st \<longleftrightarrow>
     length (st_buffer st) = buffersize * WINOGRAD_TILE
     \<and> st_buffer_entries st < buffersize
     \<and> st_buffer_entries st \<le> n
     \<and> (st_buffer_entries st \<noteq> 0 \<longrightarrow> st_buffer_offset st = n - st_buffer_entries st)
     \<and> (\<forall>e<st_buffer_entries st. \<forall>band<WINOGRAD_TILE.
           st_buffer st ! (band * buffersize + e)
           = tile_value cfg inp (n - st_buffer_entries st + e) band)
     \<and> st_V st = scatter cfg inp C V0 (n - st_buffer_entries st)
     \<and> (n = C * WINOGRAD_P cfg \<longrightarrow> st_buffer_entries st = 0)"

text \<open>
  The plane of channel \<open>ch\<close> with its border of zeros, as \<^verbatim>\<open>in_pad\<close> holds it while the
  tiles of the channel are transformed; and the grids whose cells outside the board are
  zero.
\<close>

definition padded_plane :: "config \<Rightarrow> real list \<Rightarrow> nat \<Rightarrow> real list list" where
  "padded_plane cfg inp ch =
     map (\<lambda>r. map (\<lambda>c.
            if 1 \<le> r \<and> r \<le> BOARD_SIZE cfg \<and> 1 \<le> c \<and> c \<le> BOARD_SIZE cfg
            then inp ! (ch * (BOARD_SIZE cfg * BOARD_SIZE cfg) + (r - 1) * BOARD_SIZE cfg + (c - 1))
            else 0)
          [0..<Wpad cfg])
       [0..<Wpad cfg]"

definition zero_border :: "config \<Rightarrow> real list list \<Rightarrow> bool" where
  "zero_border cfg p \<longleftrightarrow>
     length p = Wpad cfg
     \<and> (\<forall>r<Wpad cfg. length (p ! r) = Wpad cfg)
     \<and> (\<forall>r<Wpad cfg. \<forall>c<Wpad cfg.
          \<not> (1 \<le> r \<and> r \<le> BOARD_SIZE cfg \<and> 1 \<le> c \<and> c \<le> BOARD_SIZE cfg) \<longrightarrow> p ! r ! c = 0)"

text \<open>
  The round trip of claim C3: the identity-like weights, which hold in every band the
  \<open>K\<close>x\<open>K\<close> identity matrix; the 6x6 matrix \<^verbatim>\<open>Bt . tile . B\<close> of a tile of a padded
  plane; and the input transform, the batched multiply with these weights and the
  output transform, one after the other.
\<close>

definition identity_U :: "nat \<Rightarrow> real list" where
  "identity_U K =
     map (\<lambda>idx. if idx div K mod K = idx mod K then 1 else 0) [0..<WINOGRAD_TILE * K * K]"

definition winograd_tile :: "config \<Rightarrow> real list list \<Rightarrow> nat \<Rightarrow> nat \<Rightarrow> real list list" where
  "winograd_tile cfg in_pad block_y block_x =
     map (\<lambda>i. map (\<lambda>j.
            tile_acc cfg (tile_T1 cfg in_pad (WINOGRAD_M * block_y) (WINOGRAD_M * block_x)) i j)
          [0..<WINOGRAD_ALPHA])
       [0..<WINOGRAD_ALPHA]"

definition winograd_roundtrip ::
  "config \<Rightarrow> real list \<Rightarrow> nat \<Rightarrow> real list \<Rightarrow> real list \<Rightarrow> real list \<Rightarrow> real list" where
  "winograd_roundtrip cfg inp C V0 M0 Y0 =
     winograd_transform_out cfg
       (winograd_sgemm cfg (identity_U C) (winograd_transform_in cfg inp V0 C) M0 C C) Y0 C"

text \<open>
  The weights under which the round trip does reproduce the plane: band \<open>(xi, nu)\<close> holds
  the \<open>K\<close>x\<open>K\<close> identity matrix scaled by \<open>g xi * g nu\<close>, where \<open>g\<close> is the column
  below. These are the weights of the 3x3 kernel with centre one and zero elsewhere,
  channel by channel, in the Winograd domain.
\<close>

definition identity_kernel_column :: "config \<Rightarrow> real list" where
  "identity_kernel_column cfg = (let s = SQ2 cfg in [0, - s / 3, s / 3, s / 6, - s / 6, 0])"

definition identity_kernel_U :: "config \<Rightarrow> nat \<Rightarrow> real list" where
  "identity_kernel_U cfg K =
     map (\<lambda>idx. if idx div K mod K = idx mod K
                then identity_kernel_column cfg ! (idx div (K * K) div WINOGRAD_ALPHA)
                     * identity_kernel_column cfg ! (idx div (K * K) mod WINOGRAD_ALPHA)
                else 0)
       [0..<WINOGRAD_TILE * K * K]"

definition winograd_roundtrip_kernel ::
  "config \<Rightarrow> real list \<Rightarrow> nat \<Rightarrow> real list \<Rightarrow> real list \<Rightarrow> real list \<Rightarrow> real list" where
  "winograd_roundtrip_kernel cfg inp C V0 M0 Y0 =
     winograd_transform_out cfg
       (winograd_sgemm cfg (identity_kernel_U cfg C) (winograd_transform_in cfg inp V0 C) M0 C C) Y0 C"

text \<open>The constants of Leela Zero on the 19x19 board, and a plane with a single one.\<close>

definition leela_cfg :: config where
  "leela_cfg = \<lparr>BOARD_SIZE = 19, SQ2 = sqrt 2, INPUT_CHANNELS = 18, OUTPUTS_POLICY = 2, OUTPUTS_VALUE = 1\<rparr>"

definition impulse_plane :: "real list" where
  "impulse_plane = 1 # replicate 360 0"

text \<open>Vectors and weight sets that hold only zeros.\<close>

definition all_zero :: "real list \<Rightarrow> bool" where
  "all_zero xs \<longleftrightarrow> (\<forall>x\<in>set xs. x = 0)"

definition zero_weight_set :: "ForwardPipeWeights \<Rightarrow> bool" where
  "zero_weight_set w \<longleftrightarrow>
     (\<forall>xs\<in>set (m_conv_weights w). all_zero xs)
     \<and> (\<forall>xs\<in>set (m_batchnorm_means w). all_zero xs)
     \<and> (\<forall>xs\<in>set (m_batchnorm_stddevs w). all_zero xs)
     \<and> (\<forall>xs\<in>set (m_se_weights w). all_zero xs)
     \<and> (\<forall>xs\<in>set (m_se_biases w). all_zero xs)
     \<and> all_zero (w_conv_pol_w w)
     \<and> all_zero (w_conv_val_w w)"

text \<open>
  A pipeline before \<^verbatim>\<open>initialize\<close> and \<^verbatim>\<open>push_weights\<close>: no weights, empty head vectors.
  And a pipeline on the one-intersection board with one channel and one residual block,
  all of whose weights are zero.
\<close>

definition fresh_pipe :: CPUPipe where
  "fresh_pipe =
     \<lparr>m_input_channels = 0,
      m_weights = None,
      m_conv_pol_w = [], m_conv_pol_b = [],
      m_conv_val_w = [], m_conv_val_b = []\<rparr>"

definition zero_example_weights :: ForwardPipeWeights where
  "zero_example_weights =
     \<lparr>m_conv_weights = [replicate 36 0, replicate 36 0, replicate 36 0],
      m_batchnorm_means = [[0], [0], [0]],
      m_batchnorm_stddevs = [[0], [0], [0]],
      m_se_weights = [[], []],
      m_se_biases = [[], [0, 0]],
      w_conv_pol_w = [0],
      w_conv_val_w = [0]\<rparr>"

definition zero_example_pipe :: CPUPipe where
  "zero_example_pipe =
     \<lparr>m_input_channels = 1,
      m_weights = Some zero_example_weights,
      m_conv_pol_w = [0], m_conv_pol_b = [0],
      m_conv_val_w = [0], m_conv_val_b = [0]\<rparr>"





section \<open>Auxiliary lemmas about loops over index ranges\<close>

lemma fold_upt_Suc: "fold f [0..<Suc n] s = f n (fold f [0..<n] s)"
  by simp

lemma fold_upt_invariant:
  assumes "I 0 s" and "\<And>i t. i < n \<Longrightarrow> I i t \<Longrightarrow> I (Suc i) (f i t)"
  shows "I n (fold f [0..<n] s)"
  using assms
proof (induction n)
  case 0
  then show ?case by simp
next
  case (Suc n)
  have "I n (fold f [0..<n] s)"
    using Suc.IH Suc.prems by simp
  then show ?case
    using Suc.prems(2)[of n] by simp
qed

lemma length_fold_modify:
  "length (fold (\<lambda>b xs. xs[h b := F b xs]) [0..<n] xs) = length xs"
  by (induction n) simp_all

lemma fold_modify_nth:
  assumes "idx < length xs"
  shows "fold (\<lambda>b xs. xs[base + b := F (base + b) (xs ! (base + b))]) [0..<n] xs ! idx
         = (if base \<le> idx \<and> idx < base + n then F idx (xs ! idx) else xs ! idx)"
  using assms
proof (induction n)
  case 0
  then show ?case by auto
next
  case (Suc n)
  let ?ys = "fold (\<lambda>b xs. xs[base + b := F (base + b) (xs ! (base + b))]) [0..<n] xs"
  have len: "length ?ys = length xs"
    by (rule length_fold_modify)
  have ih: "?ys ! idx = (if base \<le> idx \<and> idx < base + n then F idx (xs ! idx) else xs ! idx)"
    using Suc by simp
  show ?case
  proof (cases "idx = base + n")
    case True
    then have "?ys ! (base + n) = xs ! (base + n)"
      using ih by simp
    then show ?thesis
      using True Suc.prems len by simp
  next
    case False
    then show ?thesis
      using ih by (auto simp: nth_list_update)
  qed
qed

lemma length_fold2_modify:
  "length (fold (\<lambda>c. fold (\<lambda>b xs. xs[h c b := F c b xs]) [0..<ss]) [0..<n] xs) = length xs"
  by (induction n) (simp_all add: length_fold_modify)

lemma fold2_modify_nth:
  assumes "idx < length xs"
  shows "fold (\<lambda>c. fold (\<lambda>b xs. xs[c * ss + b := F c (c * ss + b) (xs ! (c * ss + b))]) [0..<ss])
           [0..<n] xs ! idx
         = (if idx < n * ss then F (idx div ss) idx (xs ! idx) else xs ! idx)"
  using assms
proof (induction n)
  case 0
  then show ?case by simp
next
  case (Suc n)
  let ?ys = "fold (\<lambda>c. fold (\<lambda>b xs. xs[c * ss + b := F c (c * ss + b) (xs ! (c * ss + b))]) [0..<ss])
           [0..<n] xs"
  have len: "length ?ys = length xs"
    by (rule length_fold2_modify)
  have ih: "?ys ! idx = (if idx < n * ss then F (idx div ss) idx (xs ! idx) else xs ! idx)"
    using Suc by simp
  have step: "fold (\<lambda>b xs. xs[n * ss + b := F n (n * ss + b) (xs ! (n * ss + b))]) [0..<ss] ?ys ! idx
        = (if n * ss \<le> idx \<and> idx < n * ss + ss then F n idx (?ys ! idx) else ?ys ! idx)"
    using fold_modify_nth[of idx ?ys "n * ss" "F n" ss] Suc.prems len by simp
  have dv: "n * ss \<le> idx \<Longrightarrow> idx < n * ss + ss \<Longrightarrow> idx div ss = n"
    by (metis add.commute div_nat_eqI mult.commute mult_Suc_right)
  show ?case
    using step ih dv by (auto simp: not_less)
qed

lemma cell_index_less: "c < (n::nat) \<Longrightarrow> b < ss \<Longrightarrow> c * ss + b < n * ss"
proof -
  assume a: "c < n" "b < ss"
  then have "c * ss + b < c * ss + ss" by simp
  also have "\<dots> = Suc c * ss" by simp
  also have "\<dots> \<le> n * ss" using a(1) by (intro mult_le_mono1) simp
  finally show ?thesis .
qed

lemma cell_index_div: "b < ss \<Longrightarrow> (c * ss + b) div ss = (c::nat)"
  by simp

lemma lambda_ReLU_max: "lambda_ReLU x = max 0 x"
  by (simp add: lambda_ReLU_def max_def)

lemma batchnorm_None_nth:
  assumes "idx < length data"
  shows "batchnorm ss channels data means stddevs None ! idx
         = (if idx < channels * ss
            then lambda_ReLU (stddevs ! (idx div ss) * (data ! idx - means ! (idx div ss)))
            else data ! idx)"
  unfolding batchnorm_def Let_def option.case
  using fold2_modify_nth[of idx data ss "\<lambda>c i x. lambda_ReLU (stddevs ! c * (x - means ! c))" channels] assms
  by simp

lemma batchnorm_Some_nth:
  assumes "idx < length data"
  shows "batchnorm ss channels data means stddevs (Some res) ! idx
         = (if idx < channels * ss
            then lambda_ReLU (stddevs ! (idx div ss) * (data ! idx - means ! (idx div ss)) + res ! idx)
            else data ! idx)"
  unfolding batchnorm_def Let_def option.case
  using fold2_modify_nth[of idx data ss "\<lambda>c i x. lambda_ReLU (stddevs ! c * (x - means ! c) + res ! i)" channels] assms
  by simp

lemma batchnorm_no_relu_nth:
  assumes "idx < length data"
  shows "batchnorm_no_relu ss channels data means stddevs ! idx
         = (if idx < channels * ss
            then stddevs ! (idx div ss) * (data ! idx - means ! (idx div ss))
            else data ! idx)"
  unfolding batchnorm_no_relu_def Let_def
  using fold2_modify_nth[of idx data ss "\<lambda>c i x. stddevs ! c * (x - means ! c)" channels] assms
  by simp

lemma length_batchnorm: "length (batchnorm ss channels data means stddevs e) = length data"
  unfolding batchnorm_def Let_def
  by (cases e) (simp_all add: length_fold2_modify)

lemma length_batchnorm_no_relu: "length (batchnorm_no_relu ss channels data means stddevs) = length data"
  unfolding batchnorm_no_relu_def Let_def
  by (simp add: length_fold2_modify)

lemma se_fuse_body:
  "xs[i := xs ! i * w, i := xs[i := xs ! i * w] ! i + r,
      i := (if 0 < xs[i := xs ! i * w, i := xs[i := xs ! i * w] ! i + r] ! i
            then xs[i := xs ! i * w, i := xs[i := xs ! i * w] ! i + r] ! i else 0)]
   = xs[i := lambda_ReLU (xs ! i * w + r)]"
  by (cases "i < length xs") (simp_all add: lambda_ReLU_def list_update_beyond)

lemma se_fuse_nth:
  assumes "idx < length conv_out"
  shows "se_fuse C NI fc2 r conv_out ! idx
         = (if idx < C * NI
            then lambda_ReLU (conv_out ! idx * lambda_Sig (fc2 ! (idx div NI))
                              + (fc2 ! (C + idx div NI) + r ! idx))
            else conv_out ! idx)"
proof -
  have "se_fuse C NI fc2 r conv_out
        = fold (\<lambda>c. fold (\<lambda>b xs. xs[c * NI + b :=
              lambda_ReLU (xs ! (c * NI + b) * lambda_Sig (fc2 ! c) + (fc2 ! (C + c) + r ! (c * NI + b)))])
            [0..<NI]) [0..<C] conv_out"
    unfolding se_fuse_def Let_def by (simp only: se_fuse_body)
  then show ?thesis
    using fold2_modify_nth[of idx conv_out NI
        "\<lambda>c i x. lambda_ReLU (x * lambda_Sig (fc2 ! c) + (fc2 ! (C + c) + r ! i))" C] assms
    by simp
qed



section \<open>Batch normalisation\<close>

text \<open>
  Claim C5. For every channel \<open>c\<close> and spatial position \<open>b\<close> of a tensor that holds
  \<open>channels * spatial_size\<close> cells, \<^verbatim>\<open>batchnorm\<close> without a residual replaces the cell
  \<open>x\<close> by \<open>max 0 (scale[c] * (x - mean[c]))\<close>, \<^verbatim>\<open>batchnorm\<close> with a residual replaces it
  by \<open>max 0 (scale[c] * (x - mean[c]) + res[c][b])\<close>, and \<^verbatim>\<open>batchnorm_no_relu\<close> replaces
  it by \<open>scale[c] * (x - mean[c])\<close>, with neither rectification nor residual. The mean
  and the scale are those of the channel, whatever the position.
\<close>

theorem batchnorm_variants:
  assumes "c < channels" and "b < spatial_size" and "channels * spatial_size \<le> length data"
  shows "batchnorm spatial_size channels data means stddevs None ! (c * spatial_size + b)
           = max 0 (stddevs ! c * (data ! (c * spatial_size + b) - means ! c))
       \<and> batchnorm spatial_size channels data means stddevs (Some res) ! (c * spatial_size + b)
           = max 0 (stddevs ! c * (data ! (c * spatial_size + b) - means ! c)
                    + res ! (c * spatial_size + b))
       \<and> batchnorm_no_relu spatial_size channels data means stddevs ! (c * spatial_size + b)
           = stddevs ! c * (data ! (c * spatial_size + b) - means ! c)"
proof -
  have lt: "c * spatial_size + b < channels * spatial_size"
    using assms(1,2) by (rule cell_index_less)
  then have len: "c * spatial_size + b < length data"
    using assms(3) by simp
  have dv: "(c * spatial_size + b) div spatial_size = c"
    using assms(2) by simp
  show ?thesis
    using lt dv
    by (simp add: batchnorm_None_nth[OF len] batchnorm_Some_nth[OF len]
        batchnorm_no_relu_nth[OF len] lambda_ReLU_max)
qed

text \<open>The property at one channel of two cells, the second one negative before the call.\<close>

theorem batchnorm_variants_witness:
  "batchnorm 2 1 [3, -5] [1] [2] None ! (0 * 2 + 1) = max 0 (([2] ! 0) * ([3, -5] ! (0 * 2 + 1) - [1] ! 0))
   \<and> batchnorm 2 1 [3, -5] [1] [2] (Some [10, 20]) ! (0 * 2 + 1)
       = max 0 (([2] ! 0) * ([3, -5] ! (0 * 2 + 1) - [1] ! 0) + [10, 20] ! (0 * 2 + 1))
   \<and> batchnorm_no_relu 2 1 [3, -5] [1] [2] ! (0 * 2 + 1) = ([2] ! 0) * ([3, -5] ! (0 * 2 + 1) - [1] ! 0)"
  using batchnorm_variants[of 0 1 1 2 "[3, -5]" "[1]" "[2]" "[10, 20]"]
  by simp

section \<open>Squeeze-and-excitation block\<close>

text \<open>
  Claim C2. For every channel \<open>c < C\<close> and position \<open>pos\<close>, the SE block leaves in
  \<^verbatim>\<open>conv_out\<close> the value \<open>max 0 (feature * sigmoid(gate[c]) + bias_term[c] + res)\<close>, where
  \<open>sigmoid(x)\<close> is the logistic function \<open>1 / (1 + exp (- x))\<close>,
  \<open>feature\<close> and \<open>res\<close> are the cells of \<^verbatim>\<open>conv_out\<close> and \<^verbatim>\<open>res\<close> before the block, and
  \<open>gate[c]\<close> and \<open>bias_term[c]\<close> are outputs \<open>c\<close> and \<open>C + c\<close> of the second dense
  layer, which the block leaves in \<^verbatim>\<open>se_fc2\<close>: the gate scales the feature, then the
  bias term and the residual are added, then the sum is floored at zero. When the gate
  input and the bias term are both zero the value is \<open>max 0 (0.5 * feature + res)\<close>.
\<close>

theorem se_block_fused_update:
  assumes "c < C" and "pos < NUM_INTERSECTIONS cfg"
    and "C * NUM_INTERSECTIONS cfg \<le> length (f_conv_out st)"
  shows "(let st' = se_block cfg C w i st;
              idx = c * NUM_INTERSECTIONS cfg + pos;
              gate = f_se_fc2 st' ! c;
              bias_term = f_se_fc2 st' ! (C + c)
          in f_se_fc2 st' = innerproduct (C div 2) (C * 2) (f_se_fc1 st')
                              (m_se_weights w ! i) (m_se_biases w ! i) (f_se_fc2 st)
           \<and> f_conv_out st' ! idx
               = max 0 (f_conv_out st ! idx * (1 / (1 + exp (- gate))) + bias_term + f_res st ! idx)
           \<and> (gate = 0 \<and> bias_term = 0 \<longrightarrow>
                f_conv_out st' ! idx = max 0 (0.5 * f_conv_out st ! idx + f_res st ! idx)))"
proof -
  let ?NI = "NUM_INTERSECTIONS cfg"
  have lt: "c * ?NI + pos < C * ?NI"
    using assms(1,2) by (rule cell_index_less)
  then have len: "c * ?NI + pos < length (f_conv_out st)"
    using assms(3) by simp
  have dv: "(c * ?NI + pos) div ?NI = c"
    using assms(2) by simp
  show ?thesis
    using lt dv
    by (simp add: se_block_def Let_def se_fuse_nth[OF len] lambda_ReLU_max lambda_Sig_def add.assoc)
qed

text \<open>The property at one channel of one cell, with a zero gate and a zero bias term.\<close>

theorem se_block_fused_update_witness:
  "f_conv_out (se_block example_cfg 1 se_example_weights 1 se_example_state) ! 0 = 5 / 2"
proof -
  have h1: "(0::nat) < 1" by simp
  have h2: "0 < NUM_INTERSECTIONS example_cfg"
    by (simp add: NUM_INTERSECTIONS_def example_cfg_def)
  have h3: "1 * NUM_INTERSECTIONS example_cfg \<le> length (f_conv_out se_example_state)"
    by (simp add: NUM_INTERSECTIONS_def example_cfg_def se_example_state_def)
  have fc2: "f_se_fc2 (se_block example_cfg 1 se_example_weights 1 se_example_state) = [0, 0]"
    by (simp add: se_block_def Let_def innerproduct_def cblas_sgemv_def relu_def
        se_example_weights_def se_example_state_def numeral_2_eq_2)
  have "f_conv_out (se_block example_cfg 1 se_example_weights 1 se_example_state) ! 0
        = max 0 (0.5 * f_conv_out se_example_state ! 0 + f_res se_example_state ! 0)"
    using se_block_fused_update[OF h1 h2 h3, of se_example_weights 1]
    by (simp add: Let_def fc2[unfolded One_nat_def])
  then show ?thesis
    by (simp add: se_example_state_def)
qed

section \<open>Batched matrix multiply: the cells of each band\<close>

lemma fold_store_nth:
  assumes "idx < length xs"
  shows "fold (\<lambda>j xs. xs[base + j := g j]) [0..<n] xs ! idx
         = (if base \<le> idx \<and> idx < base + n then g (idx - base) else xs ! idx)"
  using fold_modify_nth[of idx xs base "\<lambda>i x. g (i - base)" n] assms by simp

lemma block_index_div:
  fixes b :: nat
  assumes "b * sz \<le> idx" and "idx < b * sz + sz"
  shows "idx div sz = b"
  using assms by (metis add.commute div_nat_eqI mult.commute mult_Suc_right)

lemma fold_blocks_nth:
  assumes step: "\<And>b xs idx. idx < length xs \<Longrightarrow>
             f b xs ! idx = (if b * sz \<le> idx \<and> idx < b * sz + sz then G b idx else xs ! idx)"
    and len: "\<And>b xs. length (f b xs) = length xs"
    and idx: "idx < length xs"
  shows "fold f [0..<n] xs ! idx = (if idx < n * sz then G (idx div sz) idx else xs ! idx)"
proof (induction n)
  case 0
  then show ?case by simp
next
  case (Suc n)
  let ?ys = "fold f [0..<n] xs"
  have leny: "length ?ys = length xs"
    by (induction n) (simp_all add: len)
  have "fold f [0..<Suc n] xs ! idx
        = (if n * sz \<le> idx \<and> idx < n * sz + sz then G n idx else ?ys ! idx)"
    using step[of idx ?ys n] idx leny by simp
  then show ?case
    using Suc.IH block_index_div[of n sz idx] by (auto simp: not_less)
qed

lemma length_fold_blocks:
  assumes "\<And>b xs. length (f b xs) = length xs"
  shows "length (fold f [0..<n] xs) = length xs"
  by (induction n) (simp_all add: assms)

lemma fold2_store_nth:
  assumes "idx < length xs"
  shows "fold (\<lambda>i. fold (\<lambda>j xs. xs[base + i * n + j := g i j]) [0..<n]) [0..<m] xs ! idx
         = (if base \<le> idx \<and> idx < base + m * n
            then g ((idx - base) div n) ((idx - base) mod n) else xs ! idx)"
  using assms
proof (induction m)
  case 0
  then show ?case by auto
next
  case (Suc m)
  let ?ys = "fold (\<lambda>i. fold (\<lambda>j xs. xs[base + i * n + j := g i j]) [0..<n]) [0..<m] xs"
  have leny: "length ?ys = length xs"
    by (rule length_fold2_modify)
  have step: "fold (\<lambda>j xs. xs[base + m * n + j := g m j]) [0..<n] ?ys ! idx
        = (if base + m * n \<le> idx \<and> idx < base + m * n + n then g m (idx - (base + m * n)) else ?ys ! idx)"
    using fold_store_nth[of idx ?ys "base + m * n" "g m" n] Suc.prems leny by simp
  have ih: "?ys ! idx = (if base \<le> idx \<and> idx < base + m * n
            then g ((idx - base) div n) ((idx - base) mod n) else xs ! idx)"
    using Suc by simp
  have dm: "(idx - base) div n = m \<and> (idx - base) mod n = idx - (base + m * n)"
    if "base + m * n \<le> idx" "idx < base + m * n + n"
  proof -
    have a: "m * n \<le> idx - base" "idx - base < m * n + n"
      using that by simp_all
    then have d: "(idx - base) div n = m"
      by (rule block_index_div)
    have "(idx - base) mod n = (idx - base) - ((idx - base) div n) * n"
      by (simp add: minus_div_mult_eq_mod)
    then show ?thesis
      using d by simp
  qed
  show ?case
    using step ih dm by (auto simp: not_less)
qed

lemma cblas_sgemm_beta0_nth:
  assumes "idx < length Cm"
  shows "cblas_sgemm tA tB M N K alpha A offA lda B offB ldb 0 Cm offC N ! idx
         = (if offC \<le> idx \<and> idx < offC + M * N
            then alpha * (\<Sum>l<K. (if tA then A ! (offA + l * lda + (idx - offC) div N)
                                     else A ! (offA + (idx - offC) div N * lda + l))
                               * (if tB then B ! (offB + (idx - offC) mod N * ldb + l)
                                     else B ! (offB + l * ldb + (idx - offC) mod N)))
            else Cm ! idx)"
  unfolding cblas_sgemm_def Let_def
  using fold2_store_nth[of idx Cm offC N
      "\<lambda>i j. alpha * (\<Sum>l<K. (if tA then A ! (offA + l * lda + i) else A ! (offA + i * lda + l))
                               * (if tB then B ! (offB + j * ldb + l) else B ! (offB + l * ldb + j)))" M]
    assms
  by simp

lemma length_cblas_sgemm:
  "length (cblas_sgemm tA tB M N K alpha A offA lda B offB ldb beta Cm offC ldc) = length Cm"
  unfolding cblas_sgemm_def by (rule length_fold2_modify)

lemma length_winograd_sgemm: "length (winograd_sgemm cfg U V M C K) = length M"
  unfolding winograd_sgemm_def Let_def
  by (rule length_fold_blocks) (rule length_cblas_sgemm)

lemma winograd_sgemm_nth:
  assumes "idx < length M"
  shows "winograd_sgemm cfg U V M C K ! idx
         = (if idx < WINOGRAD_TILE * (K * WINOGRAD_P cfg)
            then (\<Sum>c<C. U ! (idx div (K * WINOGRAD_P cfg) * K * C + c * K
                              + (idx - idx div (K * WINOGRAD_P cfg) * (K * WINOGRAD_P cfg)) div WINOGRAD_P cfg)
                       * V ! (idx div (K * WINOGRAD_P cfg) * C * WINOGRAD_P cfg + c * WINOGRAD_P cfg
                              + (idx - idx div (K * WINOGRAD_P cfg) * (K * WINOGRAD_P cfg)) mod WINOGRAD_P cfg))
            else M ! idx)"
proof -
  let ?P = "WINOGRAD_P cfg"
  let ?G = "\<lambda>b idx. (\<Sum>c<C. U ! (b * K * C + c * K + (idx - b * (K * ?P)) div ?P)
                       * V ! (b * C * ?P + c * ?P + (idx - b * (K * ?P)) mod ?P))"
  have "fold (\<lambda>b M. cblas_sgemm True False K ?P C 1 U (b * K * C) K V (b * C * ?P) ?P 0 M (b * K * ?P) ?P)
          [0..<WINOGRAD_TILE] M ! idx
        = (if idx < WINOGRAD_TILE * (K * ?P) then ?G (idx div (K * ?P)) idx else M ! idx)"
  proof (rule fold_blocks_nth)
    fix b xs i
    assume "i < length (xs::real list)"
    then show "cblas_sgemm True False K ?P C 1 U (b * K * C) K V (b * C * ?P) ?P 0 xs (b * K * ?P) ?P ! i
               = (if b * (K * ?P) \<le> i \<and> i < b * (K * ?P) + K * ?P then ?G b i else xs ! i)"
      by (simp add: cblas_sgemm_beta0_nth mult.assoc)
  next
    fix b xs
    show "length (cblas_sgemm True False K ?P C 1 U (b * K * C) K V (b * C * ?P) ?P 0 xs (b * K * ?P) ?P)
          = length (xs::real list)"
      by (rule length_cblas_sgemm)
  next
    show "idx < length M" by (rule assms)
  qed
  then show ?thesis
    unfolding winograd_sgemm_def Let_def by simp
qed

lemma band_index_decode:
  fixes b k p KK PP :: nat
  assumes "k < KK" and "p < PP"
  shows "(b * KK * PP + k * PP + p) div (KK * PP) = b"
    and "(b * KK * PP + k * PP + p - b * (KK * PP)) div PP = k"
    and "(b * KK * PP + k * PP + p - b * (KK * PP)) mod PP = p"
proof -
  have lt: "k * PP + p < KK * PP"
    using assms by (rule cell_index_less)
  have e: "b * KK * PP + k * PP + p = b * (KK * PP) + (k * PP + p)"
    by (simp add: mult.assoc)
  show "(b * KK * PP + k * PP + p) div (KK * PP) = b"
    unfolding e using lt by (intro block_index_div) simp_all
  show "(b * KK * PP + k * PP + p - b * (KK * PP)) div PP = k"
    unfolding e using assms by simp
  show "(b * KK * PP + k * PP + p - b * (KK * PP)) mod PP = p"
    unfolding e using assms by simp
qed

lemma band_index_less:
  fixes b k p KK PP n :: nat
  assumes "b < n" and "k < KK" and "p < PP"
  shows "b * KK * PP + k * PP + p < n * (KK * PP)"
proof -
  have "k * PP + p < KK * PP"
    using assms(2,3) by (rule cell_index_less)
  then have "b * (KK * PP) + (k * PP + p) < n * (KK * PP)"
    using assms(1) by (rule cell_index_less[rotated])
  then show ?thesis
    by (simp add: mult.assoc)
qed

text \<open>
  Claim C4. For every band \<open>b\<close> of the 36 and all channel counts \<open>C\<close> and \<open>K\<close>,
  \<^verbatim>\<open>winograd_sgemm\<close> leaves in cell \<open>(k, p)\<close> of band \<open>b\<close> of \<^verbatim>\<open>M\<close> the product of row
  \<open>k\<close> of the band's weight slice (stored transposed, cell \<open>(k, c)\<close> at \<open>c * K + k\<close>) with
  column \<open>p\<close> of the band's slice of \<^verbatim>\<open>V\<close>, unscaled; and the result is the same
  whatever \<^verbatim>\<open>M\<close> held before the call.
\<close>

theorem winograd_sgemm_bands:
  assumes "b < WINOGRAD_TILE" and "k < K" and "p < WINOGRAD_P cfg"
    and "length M = WINOGRAD_TILE * K * WINOGRAD_P cfg"
    and "length M' = length M"
  shows "winograd_sgemm cfg U V M C K ! (b * K * WINOGRAD_P cfg + k * WINOGRAD_P cfg + p)
           = (\<Sum>c<C. U ! (b * K * C + c * K + k)
                     * V ! (b * C * WINOGRAD_P cfg + c * WINOGRAD_P cfg + p))
       \<and> winograd_sgemm cfg U V M C K = winograd_sgemm cfg U V M' C K"
proof
  let ?P = "WINOGRAD_P cfg"
  have lt: "b * K * ?P + k * ?P + p < WINOGRAD_TILE * (K * ?P)"
    using assms(1-3) by (rule band_index_less)
  then have len: "b * K * ?P + k * ?P + p < length M"
    using assms(4) by (simp add: mult.assoc)
  show "winograd_sgemm cfg U V M C K ! (b * K * ?P + k * ?P + p)
           = (\<Sum>c<C. U ! (b * K * C + c * K + k) * V ! (b * C * ?P + c * ?P + p))"
    using lt band_index_decode[OF assms(2,3), of b]
    by (simp add: winograd_sgemm_nth[OF len])
  show "winograd_sgemm cfg U V M C K = winograd_sgemm cfg U V M' C K"
  proof (rule nth_equalityI)
    show "length (winograd_sgemm cfg U V M C K) = length (winograd_sgemm cfg U V M' C K)"
      using assms(5) by (simp add: length_winograd_sgemm)
  next
    fix i
    assume "i < length (winograd_sgemm cfg U V M C K)"
    then have i: "i < length M" "i < length M'" "i < WINOGRAD_TILE * (K * ?P)"
      using assms(4,5) by (simp_all add: length_winograd_sgemm mult.assoc)
    show "winograd_sgemm cfg U V M C K ! i = winograd_sgemm cfg U V M' C K ! i"
      using i(3) by (simp add: winograd_sgemm_nth[OF i(1)] winograd_sgemm_nth[OF i(2)])
  qed
qed

lemma example_cfg_simps:
  "BOARD_SIZE example_cfg = 1" "WINOGRAD_WTILES example_cfg = 1" "WINOGRAD_P example_cfg = 1"
  "NUM_INTERSECTIONS example_cfg = 1" "INPUT_CHANNELS example_cfg = 1"
  "OUTPUTS_POLICY example_cfg = 1" "OUTPUTS_VALUE example_cfg = 1"
  by (simp_all add: example_cfg_def WINOGRAD_WTILES_def WINOGRAD_P_def WINOGRAD_M_def
      NUM_INTERSECTIONS_def)

lemma WINOGRAD_TILE_36: "WINOGRAD_TILE = 36"
  by (simp add: WINOGRAD_TILE_def WINOGRAD_ALPHA_def WINOGRAD_M_def)

text \<open>The property on the one-tile board, with one input and one output channel.\<close>

theorem winograd_sgemm_bands_witness:
  "winograd_sgemm example_cfg (replicate 36 2) (replicate 36 3) (replicate 36 7) 1 1 ! 0 = 6
   \<and> winograd_sgemm example_cfg (replicate 36 2) (replicate 36 3) (replicate 36 7) 1 1
     = winograd_sgemm example_cfg (replicate 36 2) (replicate 36 3) (replicate 36 0) 1 1"
proof -
  have h1: "0 < WINOGRAD_TILE" by (simp add: WINOGRAD_TILE_36)
  have h2: "(0::nat) < 1" by simp
  have h3: "0 < WINOGRAD_P example_cfg" by (simp add: example_cfg_simps)
  have h4: "length (replicate 36 (7::real)) = WINOGRAD_TILE * 1 * WINOGRAD_P example_cfg"
    by (simp add: example_cfg_simps WINOGRAD_TILE_36)
  have h5: "length (replicate 36 (0::real)) = length (replicate 36 (7::real))" by simp
  note inst = winograd_sgemm_bands[OF h1 h2 h3 h4 h5, of "replicate 36 2" "replicate 36 3" 1]
  have a: "winograd_sgemm example_cfg (replicate 36 2) (replicate 36 3) (replicate 36 7) 1 1 ! 0 = 6"
    using inst[THEN conjunct1] by simp
  have b: "winograd_sgemm example_cfg (replicate 36 2) (replicate 36 3) (replicate 36 7) 1 1
     = winograd_sgemm example_cfg (replicate 36 2) (replicate 36 3) (replicate 36 0) 1 1"
    using inst[THEN conjunct2] by simp
  show ?thesis
    by (rule conjI[OF a b])
qed

section \<open>Winograd convolution: the composition\<close>

text \<open>
  Claim C6. For a weight vector \<^verbatim>\<open>U\<close> of length \<open>outputs * C * 36\<close>, with a positive
  number of outputs, \<^verbatim>\<open>winograd_convolve3\<close> derives the channel count \<open>C\<close> as
  \<open>U.size() / (outputs * 36)\<close> and returns what the input transform, then the batched
  matrix multiply, then the output transform produce, in that order, on the scratch
  buffers \<^verbatim>\<open>V\<close> and \<^verbatim>\<open>M\<close> the caller passed.
\<close>

theorem winograd_convolve3_composition:
  assumes "0 < outputs" and "length U = outputs * C * 36"
  shows "length U div (outputs * 36) = C
       \<and> winograd_convolve3 cfg outputs input U V M output
         = (let V1 = winograd_transform_in cfg input V (length U div (outputs * 36));
                M1 = winograd_sgemm cfg U V1 M (length U div (outputs * 36)) outputs;
                output1 = winograd_transform_out cfg M1 output outputs
            in Some (V1, M1, output1))"
proof -
  have "outputs * C * 36 = C * (outputs * 36)" by simp
  then have "length U div (outputs * 36) = C"
    using assms by simp
  then show ?thesis
    using assms(1) by (simp add: winograd_convolve3_def Let_def WINOGRAD_ALPHA_def WINOGRAD_M_def)
qed

text \<open>The property for one output channel and a weight vector of 72 cells: two input channels.\<close>

theorem winograd_convolve3_composition_witness:
  "length (replicate 72 (0::real)) div (1 * 36) = 2
   \<and> winograd_convolve3 example_cfg 1 [1, 2] (replicate 72 0) (replicate 72 0) (replicate 36 0) [0]
     = (let V1 = winograd_transform_in example_cfg [1, 2] (replicate 72 0)
                   (length (replicate 72 (0::real)) div (1 * 36));
            M1 = winograd_sgemm example_cfg (replicate 72 0) V1 (replicate 36 0)
                   (length (replicate 72 (0::real)) div (1 * 36)) 1;
            output1 = winograd_transform_out example_cfg M1 [0] 1
        in Some (V1, M1, output1))"
proof -
  have h1: "(0::nat) < 1" by simp
  have h2: "length (replicate 72 (0::real)) = 1 * 2 * 36" by simp
  show ?thesis
    by (rule winograd_convolve3_composition[OF h1 h2])
qed

section \<open>Weight ingestion\<close>

text \<open>
  Claim C10. Two calls of \<^verbatim>\<open>push_weights\<close> that differ only in their first two
  arguments, the filter size and the channel count, leave the pipeline in the same
  state, and a \<^verbatim>\<open>forward\<close> call after either returns the same outputs.
\<close>

theorem push_weights_ignores_filter_size_and_channels:
  "push_weights filter_size1 channels1 outputs weights pipe
     = push_weights filter_size2 channels2 outputs weights pipe
   \<and> Option.bind (push_weights filter_size1 channels1 outputs weights pipe)
        (\<lambda>pipe1. forward cfg pipe1 input output_pol output_val)
     = Option.bind (push_weights filter_size2 channels2 outputs weights pipe)
        (\<lambda>pipe1. forward cfg pipe1 input output_pol output_val)"
  by (simp add: push_weights_def)

section \<open>Winograd output transform: the stores\<close>

lemma apply_stores_Nil [simp]: "apply_stores [] xs = xs"
  by (simp add: apply_stores_def)

lemma apply_stores_Cons [simp]: "apply_stores ((i, v) # ws) xs = apply_stores ws (xs[i := v])"
  by (simp add: apply_stores_def)

lemma apply_stores_append: "apply_stores (ws @ ws') xs = apply_stores ws' (apply_stores ws xs)"
  by (simp add: apply_stores_def)

lemma length_apply_stores [simp]: "length (apply_stores ws xs) = length xs"
  by (induction ws arbitrary: xs) auto

lemma apply_stores_nth_unwritten:
  "idx \<notin> fst ` set ws \<Longrightarrow> apply_stores ws xs ! idx = xs ! idx"
  by (induction ws arbitrary: xs) auto

lemma apply_stores_nth_written:
  assumes "idx < length xs" and "(idx, v) \<in> set ws"
    and "\<And>v'. (idx, v') \<in> set ws \<Longrightarrow> v' = v"
  shows "apply_stores ws xs ! idx = v"
  using assms
proof (induction ws arbitrary: xs)
  case Nil
  then show ?case by simp
next
  case (Cons w ws)
  obtain i u where w: "w = (i, u)" by (cases w)
  have len: "idx < length (xs[i := u])"
    using Cons.prems(1) by simp
  have uniq: "\<And>v'. (idx, v') \<in> set ws \<Longrightarrow> v' = v"
    using Cons.prems(3) by (meson list.set_intros(2))
  show ?case
  proof (cases "idx \<in> fst ` set ws")
    case True
    then obtain v' where v': "(idx, v') \<in> set ws" by (auto simp: image_iff)
    then have "v' = v" by (rule uniq)
    with v' have "(idx, v) \<in> set ws" by simp
    have "apply_stores ws (xs[i := u]) ! idx = v"
      by (rule Cons.IH[OF len \<open>(idx, v) \<in> set ws\<close> uniq])
    then show ?thesis
      by (simp add: w)
  next
    case False
    have "(idx, v) \<notin> set ws"
      using False by (auto simp: image_iff)
    then have "(idx, v) = w"
      using Cons.prems(2) by simp
    then have iu: "i = idx" "u = v"
      using w by simp_all
    have "apply_stores ws (xs[i := u]) ! idx = xs[i := u] ! idx"
      using False by (rule apply_stores_nth_unwritten)
    then show ?thesis
      using iu Cons.prems(1) by (simp add: w)
  qed
qed

lemma fold_apply_stores:
  "fold (\<lambda>i. apply_stores (ws i)) is = apply_stores (concat (map ws is))"
proof
  fix xs :: "'a list"
  show "fold (\<lambda>i. apply_stores (ws i)) is xs = apply_stores (concat (map ws is)) xs"
    by (induction "is" arbitrary: xs) (simp_all add: apply_stores_append)
qed

lemma fold_cond_store:
  "fold (\<lambda>j xs. if c j then xs[f j := g j] else xs) js
   = apply_stores (concat (map (\<lambda>j. if c j then [(f j, g j)] else []) js))"
proof
  fix xs :: "'a list"
  show "fold (\<lambda>j xs. if c j then xs[f j := g j] else xs) js xs
        = apply_stores (concat (map (\<lambda>j. if c j then [(f j, g j)] else []) js)) xs"
    by (induction js arbitrary: xs) simp_all
qed

lemma fold_store:
  "fold (\<lambda>j xs. xs[f j := g j]) js = apply_stores (map (\<lambda>j. (f j, g j)) js)"
proof
  fix xs :: "'a list"
  show "fold (\<lambda>j xs. xs[f j := g j]) js xs = apply_stores (map (\<lambda>j. (f j, g j)) js) xs"
    by (induction js arbitrary: xs) simp_all
qed

lemma out_tile_stores: "out_tile cfg M K k block_x block_y
   = apply_stores (out_tile_stores cfg M K k block_x block_y)"
proof
  fix Y
  show "out_tile cfg M K k block_x block_y Y
        = apply_stores (out_tile_stores cfg M K k block_x block_y) Y"
    unfolding out_tile_def out_tile_stores_def Let_def
    by (simp only: fold_cond_store fold_apply_stores)
qed

lemma winograd_transform_out_stores:
  "winograd_transform_out cfg M Y K = apply_stores (winograd_transform_out_stores cfg M K) Y"
proof -
  have tile: "out_tile cfg M K k block_x = (\<lambda>block_y. apply_stores (out_tile_stores cfg M K k block_x block_y))"
    for k block_x
    by (rule ext) (rule out_tile_stores)
  show ?thesis
    unfolding winograd_transform_out_def winograd_transform_out_stores_def
    by (simp only: tile fold_apply_stores)
qed

lemma out_tile_stores_iff:
  "(idx, v) \<in> set (out_tile_stores cfg M K k block_x block_y) \<longleftrightarrow>
   (\<exists>i<WINOGRAD_M. \<exists>j<WINOGRAD_M.
      WINOGRAD_M * block_y + i < BOARD_SIZE cfg \<and> WINOGRAD_M * block_x + j < BOARD_SIZE cfg
      \<and> idx = k * BOARD_SIZE cfg * BOARD_SIZE cfg + WINOGRAD_M * block_y * BOARD_SIZE cfg
                + WINOGRAD_M * block_x + i * BOARD_SIZE cfg + j
      \<and> v = tile_o cfg (tile_temp cfg (gather_temp_m cfg M K k
                 (block_y * WINOGRAD_WTILES cfg + block_x))) ! i ! j)"
  unfolding out_tile_stores_def Let_def
  by (auto simp: Bex_def split: if_splits)

lemma winograd_transform_out_stores_iff:
  "(idx, v) \<in> set (winograd_transform_out_stores cfg M K) \<longleftrightarrow>
   (\<exists>k<K. \<exists>block_x<WINOGRAD_WTILES cfg. \<exists>block_y<WINOGRAD_WTILES cfg.
      (idx, v) \<in> set (out_tile_stores cfg M K k block_x block_y))"
  unfolding winograd_transform_out_stores_def
  by (auto simp: Bex_def)

lemma plane_index_less:
  fixes k r c H W K :: nat
  assumes "k < K" and "r < H" and "c < W"
  shows "k * H * W + r * W + c < K * H * W"
  using band_index_less[OF assms] by (simp add: mult.assoc)

lemma plane_index_unique:
  fixes k r c k' r' c' H W :: nat
  assumes "r < H" and "c < W" and "r' < H" and "c' < W"
    and eq: "k * H * W + r * W + c = k' * H * W + r' * W + c'"
  shows "k = k' \<and> r = r' \<and> c = c'"
proof -
  note d = band_index_decode[OF assms(1,2), of k] band_index_decode[OF assms(3,4), of k']
  have "k = (k * H * W + r * W + c) div (H * W)"
    by (rule d(1)[symmetric])
  also have "\<dots> = (k' * H * W + r' * W + c') div (H * W)"
    by (simp only: eq)
  also have "\<dots> = k'"
    by (rule d(4))
  finally have k: "k = k'" .
  have r: "r = r'"
    using d(2)[unfolded eq] d(5) k by simp
  have "c = c'"
    using d(3)[unfolded eq] d(6) k by simp
  with k r show ?thesis by simp
qed

lemma out_store_index:
  "k * H * W + WINOGRAD_M * block_y * W + WINOGRAD_M * block_x + i * W + j
   = k * H * W + (WINOGRAD_M * block_y + i) * W + (WINOGRAD_M * block_x + j)"
  by (simp add: algebra_simps)

lemma out_tile_stores_memI:
  assumes "i < WINOGRAD_M" and "j < WINOGRAD_M"
    and "WINOGRAD_M * block_y + i < BOARD_SIZE cfg" and "WINOGRAD_M * block_x + j < BOARD_SIZE cfg"
  shows "(k * BOARD_SIZE cfg * BOARD_SIZE cfg
            + (WINOGRAD_M * block_y + i) * BOARD_SIZE cfg + (WINOGRAD_M * block_x + j),
          tile_o cfg (tile_temp cfg (gather_temp_m cfg M K k
                 (block_y * WINOGRAD_WTILES cfg + block_x))) ! i ! j)
         \<in> set (out_tile_stores cfg M K k block_x block_y)"
  unfolding out_tile_stores_iff out_store_index using assms by blast

lemma winograd_transform_out_stores_memI:
  assumes "k < K" and "block_x < WINOGRAD_WTILES cfg" and "block_y < WINOGRAD_WTILES cfg"
    and "w \<in> set (out_tile_stores cfg M K k block_x block_y)"
  shows "w \<in> set (winograd_transform_out_stores cfg M K)"
  using assms by (cases w) (auto simp: winograd_transform_out_stores_iff)

lemma tile_coordinate_less:
  assumes "r < BOARD_SIZE cfg"
  shows "r div WINOGRAD_M < WINOGRAD_WTILES cfg"
  using assms unfolding WINOGRAD_WTILES_def WINOGRAD_M_def
  by (auto split: if_splits)

lemma winograd_transform_out_nth:
  assumes "k < K" and "r < BOARD_SIZE cfg" and "c < BOARD_SIZE cfg"
    and "K * BOARD_SIZE cfg * BOARD_SIZE cfg \<le> length Y"
  shows "winograd_transform_out cfg M Y K ! (k * BOARD_SIZE cfg * BOARD_SIZE cfg + r * BOARD_SIZE cfg + c)
         = tile_o cfg (tile_temp cfg (gather_temp_m cfg M K k
               (r div WINOGRAD_M * WINOGRAD_WTILES cfg + c div WINOGRAD_M)))
             ! (r mod WINOGRAD_M) ! (c mod WINOGRAD_M)"
    (is "_ ! ?idx = ?v")
proof -
  let ?H = "BOARD_SIZE cfg"
  have len: "?idx < length Y"
    using plane_index_less[OF assms(1-3)] assms(4) by simp
  have m4: "0 < WINOGRAD_M"
    by (simp add: WINOGRAD_M_def)
  have "(k * ?H * ?H + (WINOGRAD_M * (r div WINOGRAD_M) + r mod WINOGRAD_M) * ?H
            + (WINOGRAD_M * (c div WINOGRAD_M) + c mod WINOGRAD_M), ?v)
          \<in> set (out_tile_stores cfg M K k (c div WINOGRAD_M) (r div WINOGRAD_M))"
    using assms(2,3) m4 by (intro out_tile_stores_memI) simp_all
  then have mem: "(?idx, ?v) \<in> set (winograd_transform_out_stores cfg M K)"
    using assms(1-3) by (intro winograd_transform_out_stores_memI[of k K "c div WINOGRAD_M" cfg "r div WINOGRAD_M"]
        tile_coordinate_less) simp_all
  have uniq: "v' = ?v" if "(?idx, v') \<in> set (winograd_transform_out_stores cfg M K)" for v'
  proof -
    from that obtain k' bx by' i j where
      b: "i < WINOGRAD_M" "j < WINOGRAD_M"
      and r': "WINOGRAD_M * by' + i < ?H" and c': "WINOGRAD_M * bx + j < ?H"
      and eq: "?idx = k' * ?H * ?H + (WINOGRAD_M * by' + i) * ?H + (WINOGRAD_M * bx + j)"
      and v': "v' = tile_o cfg (tile_temp cfg (gather_temp_m cfg M K k'
                 (by' * WINOGRAD_WTILES cfg + bx))) ! i ! j"
      unfolding winograd_transform_out_stores_iff out_tile_stores_iff out_store_index
      by blast
    have u: "k = k' \<and> r = WINOGRAD_M * by' + i \<and> c = WINOGRAD_M * bx + j"
      using plane_index_unique[OF assms(2,3) r' c' eq] .
    have "r div WINOGRAD_M = by'" "r mod WINOGRAD_M = i" "c div WINOGRAD_M = bx" "c mod WINOGRAD_M = j"
      using u b by simp_all
    then show ?thesis
      using v' u by simp
  qed
  show ?thesis
    unfolding winograd_transform_out_stores
    using len mem uniq by (rule apply_stores_nth_written)
qed

lemma length_winograd_transform_out: "length (winograd_transform_out cfg M Y K) = length Y"
  by (simp add: winograd_transform_out_stores)

text \<open>
  Claim C8. \<^verbatim>\<open>winograd_transform_out\<close> does exactly the stores of its loop nest, and each
  of them is the store of a cell \<open>(i, j)\<close> of the 4x4 block of a tile \<open>(block_x, block_y)\<close>
  of a channel \<open>k < K\<close> with \<open>y + i < H\<close> and \<open>x + j < W\<close>, at index
  \<open>k * H * W + (y + i) * W + (x + j)\<close>, which lies below \<open>K * H * W\<close>; the cells of a
  boundary tile beyond the board are not stored. The tile origins \<open>y = 4 * block_y\<close> and
  \<open>x = 4 * block_x\<close> are multiples of loop counters that start at zero, so they are
  natural numbers and no index is negative.
\<close>

theorem winograd_transform_out_clipped:
  "winograd_transform_out cfg M Y K = apply_stores (winograd_transform_out_stores cfg M K) Y
   \<and> (\<forall>(idx, v) \<in> set (winograd_transform_out_stores cfg M K).
        \<exists>k<K. \<exists>block_x<WINOGRAD_WTILES cfg. \<exists>block_y<WINOGRAD_WTILES cfg.
        \<exists>i<WINOGRAD_M. \<exists>j<WINOGRAD_M.
          WINOGRAD_M * block_y + i < BOARD_SIZE cfg \<and> WINOGRAD_M * block_x + j < BOARD_SIZE cfg
          \<and> idx = k * BOARD_SIZE cfg * BOARD_SIZE cfg
                  + (WINOGRAD_M * block_y + i) * BOARD_SIZE cfg + (WINOGRAD_M * block_x + j)
          \<and> idx < K * BOARD_SIZE cfg * BOARD_SIZE cfg)"
proof (intro conjI ballI)
  show "winograd_transform_out cfg M Y K = apply_stores (winograd_transform_out_stores cfg M K) Y"
    by (rule winograd_transform_out_stores)
next
  fix w
  assume w: "w \<in> set (winograd_transform_out_stores cfg M K)"
  obtain idx v where iv: "w = (idx, v)" by (cases w)
  from w obtain k bx by' i j where
    b: "k < K" "bx < WINOGRAD_WTILES cfg" "by' < WINOGRAD_WTILES cfg" "i < WINOGRAD_M" "j < WINOGRAD_M"
    and r: "WINOGRAD_M * by' + i < BOARD_SIZE cfg" and c: "WINOGRAD_M * bx + j < BOARD_SIZE cfg"
    and eq: "idx = k * BOARD_SIZE cfg * BOARD_SIZE cfg
                  + (WINOGRAD_M * by' + i) * BOARD_SIZE cfg + (WINOGRAD_M * bx + j)"
    unfolding iv winograd_transform_out_stores_iff out_tile_stores_iff out_store_index
    by blast
  have "idx < K * BOARD_SIZE cfg * BOARD_SIZE cfg"
    unfolding eq using b(1) r c by (rule plane_index_less)
  then show "case w of (idx, v) \<Rightarrow>
        \<exists>k<K. \<exists>block_x<WINOGRAD_WTILES cfg. \<exists>block_y<WINOGRAD_WTILES cfg.
        \<exists>i<WINOGRAD_M. \<exists>j<WINOGRAD_M.
          WINOGRAD_M * block_y + i < BOARD_SIZE cfg \<and> WINOGRAD_M * block_x + j < BOARD_SIZE cfg
          \<and> idx = k * BOARD_SIZE cfg * BOARD_SIZE cfg
                  + (WINOGRAD_M * block_y + i) * BOARD_SIZE cfg + (WINOGRAD_M * block_x + j)
          \<and> idx < K * BOARD_SIZE cfg * BOARD_SIZE cfg"
    unfolding iv using b r c eq by blast
qed

text \<open>
  The property at the store of the one cell of the one-intersection board: of the 16
  cells of its tile only cell \<open>(0, 0)\<close> is stored.
\<close>

theorem winograd_transform_out_clipped_witness:
  "(0, tile_o example_cfg (tile_temp example_cfg
          (gather_temp_m example_cfg (replicate 36 0) 1 0 (0 * WINOGRAD_WTILES example_cfg + 0))) ! 0 ! 0)
     \<in> set (winograd_transform_out_stores example_cfg (replicate 36 0) 1)
   \<and> (\<exists>k<1. \<exists>block_x<WINOGRAD_WTILES example_cfg. \<exists>block_y<WINOGRAD_WTILES example_cfg.
        \<exists>i<WINOGRAD_M. \<exists>j<WINOGRAD_M.
          WINOGRAD_M * block_y + i < BOARD_SIZE example_cfg
          \<and> WINOGRAD_M * block_x + j < BOARD_SIZE example_cfg
          \<and> 0 = k * BOARD_SIZE example_cfg * BOARD_SIZE example_cfg
                  + (WINOGRAD_M * block_y + i) * BOARD_SIZE example_cfg + (WINOGRAD_M * block_x + j)
          \<and> 0 < 1 * BOARD_SIZE example_cfg * BOARD_SIZE example_cfg)"
    (is "(0, ?v) \<in> set ?ws \<and> ?ex")
proof -
  have "(0 * BOARD_SIZE example_cfg * BOARD_SIZE example_cfg
           + (WINOGRAD_M * 0 + 0) * BOARD_SIZE example_cfg + (WINOGRAD_M * 0 + 0), ?v)
        \<in> set (out_tile_stores example_cfg (replicate 36 0) 1 0 0 0)"
    by (rule out_tile_stores_memI) (simp_all add: WINOGRAD_M_def example_cfg_simps)
  then have "(0, ?v) \<in> set (out_tile_stores example_cfg (replicate 36 0) 1 0 0 0)"
    by simp
  then have mem: "(0, ?v) \<in> set ?ws"
    by (rule winograd_transform_out_stores_memI[rotated 3]) (simp_all add: example_cfg_simps)
  have "case (0, ?v) of (idx, v) \<Rightarrow>
        \<exists>k<1. \<exists>block_x<WINOGRAD_WTILES example_cfg. \<exists>block_y<WINOGRAD_WTILES example_cfg.
        \<exists>i<WINOGRAD_M. \<exists>j<WINOGRAD_M.
          WINOGRAD_M * block_y + i < BOARD_SIZE example_cfg
          \<and> WINOGRAD_M * block_x + j < BOARD_SIZE example_cfg
          \<and> idx = k * BOARD_SIZE example_cfg * BOARD_SIZE example_cfg
                  + (WINOGRAD_M * block_y + i) * BOARD_SIZE example_cfg + (WINOGRAD_M * block_x + j)
          \<and> idx < 1 * BOARD_SIZE example_cfg * BOARD_SIZE example_cfg"
    using winograd_transform_out_clipped[of example_cfg "replicate 36 0" "[]" 1, THEN conjunct2] mem
    by (rule bspec)
  then have ?ex
    by (simp only: prod.case)
  with mem show ?thesis
    by (rule conjI)
qed

section \<open>Winograd input transform: buffered and direct scatter\<close>

lemma length_scatter [simp]: "length (scatter cfg inp C V0 n) = length V0"
  by (simp add: scatter_def)

lemma scatter_0: "scatter cfg inp C V0 0 = V0"
  by (simp add: scatter_def map_nth)

lemma scatter_extend:
  assumes "lo \<le> hi" and "hi \<le> C * WINOGRAD_P cfg"
    and ws: "\<And>idx v. (idx, v) \<in> set ws \<longleftrightarrow>
               (\<exists>band<WINOGRAD_TILE. \<exists>m. lo \<le> m \<and> m < hi
                  \<and> idx = band * C * WINOGRAD_P cfg + m \<and> v = tile_value cfg inp m band)"
  shows "apply_stores ws (scatter cfg inp C V0 lo) = scatter cfg inp C V0 hi"
proof (rule nth_equalityI)
  show "length (apply_stores ws (scatter cfg inp C V0 lo)) = length (scatter cfg inp C V0 hi)"
    by simp
next
  fix i
  assume "i < length (apply_stores ws (scatter cfg inp C V0 lo))"
  then have i: "i < length V0" by simp
  let ?CP = "C * WINOGRAD_P cfg"
  have dec: "(band * C * WINOGRAD_P cfg + m) div ?CP = band \<and> (band * C * WINOGRAD_P cfg + m) mod ?CP = m"
    if "m < hi" for band m
  proof -
    have m: "m < ?CP" using that assms(2) by simp
    have "(band * ?CP + m) div ?CP = band"
      using m by (rule cell_index_div)
    moreover have "(band * ?CP + m) mod ?CP = m"
      using m by simp
    ultimately show ?thesis by (simp only: mult.assoc)
  qed
  show "apply_stores ws (scatter cfg inp C V0 lo) ! i = scatter cfg inp C V0 hi ! i"
  proof (cases "i \<in> fst ` set ws")
    case True
    then obtain v where v: "(i, v) \<in> set ws" by (auto simp: image_iff)
    then obtain band m where bm: "band < WINOGRAD_TILE" "lo \<le> m" "m < hi"
      "i = band * C * WINOGRAD_P cfg + m" "v = tile_value cfg inp m band"
      unfolding ws by blast
    have uniq: "v' = v" if "(i, v') \<in> set ws" for v'
    proof -
      from that obtain band' m' where bm': "m' < hi"
        "i = band' * C * WINOGRAD_P cfg + m'" "v' = tile_value cfg inp m' band'"
        unfolding ws by blast
      have "band' = band \<and> m' = m"
        using dec[OF bm(3), of band] dec[OF bm'(1), of band'] bm(4) bm'(2) by simp
      then show ?thesis
        using bm(5) bm'(3) by simp
    qed
    have "apply_stores ws (scatter cfg inp C V0 lo) ! i = v"
      by (rule apply_stores_nth_written[OF _ v uniq]) (simp_all add: i)
    moreover have "i < WINOGRAD_TILE * ?CP"
    proof -
      have "m < ?CP" using bm(3) assms(2) by simp
      then have "band * ?CP + m < WINOGRAD_TILE * ?CP"
        using bm(1) by (rule cell_index_less[rotated])
      then show ?thesis
        using bm(4) by (simp add: mult.assoc)
    qed
    ultimately show ?thesis
      using i dec[OF bm(3), of band] bm by (simp add: scatter_def)
  next
    case False
    have nw: "\<not> (lo \<le> i mod ?CP \<and> i mod ?CP < hi)" if "i < WINOGRAD_TILE * ?CP"
    proof
      assume a: "lo \<le> i mod ?CP \<and> i mod ?CP < hi"
      have "?CP \<noteq> 0"
      proof
        assume "?CP = 0"
        then have "WINOGRAD_TILE * ?CP = 0" by (simp only: mult_0_right)
        with that show False by simp
      qed
      then have "i div ?CP < WINOGRAD_TILE"
        using that by (simp add: less_mult_imp_div_less)
      moreover have "i = i div ?CP * C * WINOGRAD_P cfg + i mod ?CP"
        unfolding mult.assoc by (rule div_mult_mod_eq[symmetric])
      ultimately have "(i, tile_value cfg inp (i mod ?CP) (i div ?CP)) \<in> set ws"
        unfolding ws using a by blast
      then show False
        using False by (auto simp: image_iff)
    qed
    have "apply_stores ws (scatter cfg inp C V0 lo) ! i = scatter cfg inp C V0 lo ! i"
      using False by (rule apply_stores_nth_unwritten)
    then show ?thesis
      using i nw assms(1) by (auto simp: scatter_def)
  qed
qed

lemma WINOGRAD_ALPHA_6: "WINOGRAD_ALPHA = 6"
  by (simp add: WINOGRAD_ALPHA_def WINOGRAD_M_def)

lemma concat_map_memI:
  "i \<in> set is \<Longrightarrow> j \<in> set js \<Longrightarrow> x = h i j
   \<Longrightarrow> x \<in> set (concat (map (\<lambda>i. map (\<lambda>j. h i j) js) is))"
  by auto

lemma band_stores_iff:
  "(idx, v) \<in> set (concat (map (\<lambda>i. map (\<lambda>j. (f (i * WINOGRAD_ALPHA + j), g i j))
                                       [0..<WINOGRAD_ALPHA]) [0..<WINOGRAD_ALPHA]))
   \<longleftrightarrow> (\<exists>band<WINOGRAD_TILE. idx = f band \<and> v = g (band div WINOGRAD_ALPHA) (band mod WINOGRAD_ALPHA))"
    (is "?L \<longleftrightarrow> ?R")
proof
  assume ?L
  then obtain i j where ij: "i < WINOGRAD_ALPHA" "j < WINOGRAD_ALPHA"
    "idx = f (i * WINOGRAD_ALPHA + j)" "v = g i j"
    by auto
  have "i * WINOGRAD_ALPHA + j < WINOGRAD_TILE"
    unfolding WINOGRAD_TILE_def using ij(1,2) by (rule cell_index_less)
  moreover have "(i * WINOGRAD_ALPHA + j) div WINOGRAD_ALPHA = i"
    "(i * WINOGRAD_ALPHA + j) mod WINOGRAD_ALPHA = j"
    using ij(2) by simp_all
  ultimately show ?R
    using ij(3,4) by (intro exI[of _ "i * WINOGRAD_ALPHA + j"]) simp
next
  assume ?R
  then obtain band where b: "band < WINOGRAD_TILE" "idx = f band"
    "v = g (band div WINOGRAD_ALPHA) (band mod WINOGRAD_ALPHA)"
    by blast
  have "band div WINOGRAD_ALPHA < WINOGRAD_ALPHA"
    using b(1) by (simp add: WINOGRAD_TILE_def WINOGRAD_ALPHA_6 less_mult_imp_div_less)
  moreover have "band mod WINOGRAD_ALPHA < WINOGRAD_ALPHA"
    by (simp add: WINOGRAD_ALPHA_6)
  moreover have "band div WINOGRAD_ALPHA * WINOGRAD_ALPHA + band mod WINOGRAD_ALPHA = band"
    by simp
  ultimately have "band div WINOGRAD_ALPHA \<in> set [0..<WINOGRAD_ALPHA]"
    "band mod WINOGRAD_ALPHA \<in> set [0..<WINOGRAD_ALPHA]"
    "(idx, v) = (f (band div WINOGRAD_ALPHA * WINOGRAD_ALPHA + band mod WINOGRAD_ALPHA),
                 g (band div WINOGRAD_ALPHA) (band mod WINOGRAD_ALPHA))"
    using b(2,3) by simp_all
  then show ?L
    by (rule concat_map_memI[where h = "\<lambda>i j. (f (i * WINOGRAD_ALPHA + j), g i j)"])
qed

lemma ex_single_index: "(\<exists>m. n \<le> m \<and> m < Suc n \<and> Q m) \<longleftrightarrow> Q (n::nat)"
  by (auto simp: less_Suc_eq_le dest: le_antisym)

lemma tile_index_less:
  assumes "ch < C" and "block_y < WINOGRAD_WTILES cfg" and "block_x < WINOGRAD_WTILES cfg"
  shows "ch * WINOGRAD_P cfg + block_y * WINOGRAD_WTILES cfg + block_x < C * WINOGRAD_P cfg"
  unfolding WINOGRAD_P_def
  using band_index_less[OF assms] by (simp add: mult.assoc)

lemma tile_index_decode:
  assumes "block_y < WINOGRAD_WTILES cfg" and "block_x < WINOGRAD_WTILES cfg"
  shows "(ch * WINOGRAD_P cfg + block_y * WINOGRAD_WTILES cfg + block_x) div WINOGRAD_P cfg = ch"
    and "(ch * WINOGRAD_P cfg + block_y * WINOGRAD_WTILES cfg + block_x) mod WINOGRAD_P cfg
           div WINOGRAD_WTILES cfg = block_y"
    and "(ch * WINOGRAD_P cfg + block_y * WINOGRAD_WTILES cfg + block_x) mod WINOGRAD_WTILES cfg
           = block_x"
proof -
  let ?WT = "WINOGRAD_WTILES cfg"
  let ?t = "block_y * ?WT + block_x"
  have lt: "?t < WINOGRAD_P cfg"
    unfolding WINOGRAD_P_def using assms by (rule cell_index_less)
  have e: "ch * WINOGRAD_P cfg + block_y * ?WT + block_x = ch * WINOGRAD_P cfg + ?t"
    by simp
  have "(ch * WINOGRAD_P cfg + ?t) div WINOGRAD_P cfg = ch"
    using lt by (rule cell_index_div)
  then show "(ch * WINOGRAD_P cfg + block_y * ?WT + block_x) div WINOGRAD_P cfg = ch"
    by (simp only: e)
  have "(ch * WINOGRAD_P cfg + ?t) mod WINOGRAD_P cfg = ?t"
    using lt by simp
  moreover have "?t div ?WT = block_y"
    using assms(2) by (rule cell_index_div)
  ultimately show "(ch * WINOGRAD_P cfg + block_y * ?WT + block_x) mod WINOGRAD_P cfg div ?WT = block_y"
    by (simp only: e)
  have "ch * WINOGRAD_P cfg + block_y * ?WT + block_x = (ch * ?WT + block_y) * ?WT + block_x"
    by (simp add: WINOGRAD_P_def algebra_simps)
  then show "(ch * WINOGRAD_P cfg + block_y * ?WT + block_x) mod ?WT = block_x"
    using assms(2) by simp
qed

lemma tile_value_at:
  assumes "block_y < WINOGRAD_WTILES cfg" and "block_x < WINOGRAD_WTILES cfg"
  shows "tile_value cfg inp (ch * WINOGRAD_P cfg + block_y * WINOGRAD_WTILES cfg + block_x) band
         = tile_acc cfg (tile_T1 cfg (in_pad_upto cfg inp (Suc ch))
                           (WINOGRAD_M * block_y) (WINOGRAD_M * block_x))
             (band div WINOGRAD_ALPHA) (band mod WINOGRAD_ALPHA)"
  unfolding tile_value_def tile_index_decode[OF assms] ..

lemma in_pad_upto_Suc: "in_pad_upto cfg inp (Suc ch) = copy_plane cfg inp ch (in_pad_upto cfg inp ch)"
  by (simp add: in_pad_upto_def)

lemma direct_tile:
  assumes "ch < C" and "block_y < WINOGRAD_WTILES cfg" and "block_x < WINOGRAD_WTILES cfg"
  shows "fold (\<lambda>i. fold (\<lambda>j V.
            V[(i * WINOGRAD_ALPHA + j) * C * WINOGRAD_P cfg + ch * WINOGRAD_P cfg
                + (block_y * WINOGRAD_WTILES cfg + block_x)
              := tile_acc cfg (tile_T1 cfg (in_pad_upto cfg inp (Suc ch))
                                 (WINOGRAD_M * block_y) (WINOGRAD_M * block_x)) i j])
          [0..<WINOGRAD_ALPHA]) [0..<WINOGRAD_ALPHA]
          (scatter cfg inp C V0 (ch * WINOGRAD_P cfg + block_y * WINOGRAD_WTILES cfg + block_x))
         = scatter cfg inp C V0 (Suc (ch * WINOGRAD_P cfg + block_y * WINOGRAD_WTILES cfg + block_x))"
    (is "fold _ _ (scatter _ _ _ _ ?n) = _")
proof -
  let ?T1 = "tile_T1 cfg (in_pad_upto cfg inp (Suc ch)) (WINOGRAD_M * block_y) (WINOGRAD_M * block_x)"
  let ?ws = "concat (map (\<lambda>i. map (\<lambda>j. ((i * WINOGRAD_ALPHA + j) * C * WINOGRAD_P cfg + ?n,
                                   tile_acc cfg ?T1 i j))
                       [0..<WINOGRAD_ALPHA]) [0..<WINOGRAD_ALPHA])"
  have "fold (\<lambda>i. fold (\<lambda>j V.
            V[(i * WINOGRAD_ALPHA + j) * C * WINOGRAD_P cfg + ch * WINOGRAD_P cfg
                + (block_y * WINOGRAD_WTILES cfg + block_x) := tile_acc cfg ?T1 i j])
          [0..<WINOGRAD_ALPHA]) [0..<WINOGRAD_ALPHA]
        = apply_stores ?ws"
    by (simp only: fold_store fold_apply_stores add.assoc)
  moreover have "apply_stores ?ws (scatter cfg inp C V0 ?n) = scatter cfg inp C V0 (Suc ?n)"
  proof (rule scatter_extend)
    show "?n \<le> Suc ?n" by simp
    show "Suc ?n \<le> C * WINOGRAD_P cfg"
      using tile_index_less[OF assms] by simp
    fix idx v
    show "(idx, v) \<in> set ?ws \<longleftrightarrow>
               (\<exists>band<WINOGRAD_TILE. \<exists>m. ?n \<le> m \<and> m < Suc ?n
                  \<and> idx = band * C * WINOGRAD_P cfg + m \<and> v = tile_value cfg inp m band)"
      unfolding band_stores_iff[of idx v "\<lambda>band. band * C * WINOGRAD_P cfg + ?n" "tile_acc cfg ?T1"]
        ex_single_index
      by (simp add: tile_value_at[OF assms(2,3)])
  qed
  ultimately show ?thesis by simp
qed

lemma direct_channel:
  assumes "ch < C"
  shows "fold (\<lambda>block_y. fold (\<lambda>block_x V.
            (let T1 = tile_T1 cfg (in_pad_upto cfg inp (Suc ch)) (WINOGRAD_M * block_y) (WINOGRAD_M * block_x)
             in fold (\<lambda>i. fold (\<lambda>j V.
                    V[(i * WINOGRAD_ALPHA + j) * C * WINOGRAD_P cfg + ch * WINOGRAD_P cfg
                        + (block_y * WINOGRAD_WTILES cfg + block_x)
                      := tile_acc cfg T1 i j])
                  [0..<WINOGRAD_ALPHA])
                [0..<WINOGRAD_ALPHA] V))
          [0..<WINOGRAD_WTILES cfg])
       [0..<WINOGRAD_WTILES cfg] (scatter cfg inp C V0 (ch * WINOGRAD_P cfg))
     = scatter cfg inp C V0 (Suc ch * WINOGRAD_P cfg)"
    (is "fold (\<lambda>block_y. fold (?tile block_y) _) _ _ = _")
proof -
  let ?WT = "WINOGRAD_WTILES cfg"
  let ?P = "WINOGRAD_P cfg"
  have row: "fold (?tile block_y) [0..<?WT] (scatter cfg inp C V0 (ch * ?P + block_y * ?WT))
             = scatter cfg inp C V0 (ch * ?P + Suc block_y * ?WT)"
    if hy: "block_y < ?WT" for block_y
  proof -
    have "fold (?tile block_y) [0..<?WT] (scatter cfg inp C V0 (ch * ?P + block_y * ?WT))
          = scatter cfg inp C V0 (ch * ?P + block_y * ?WT + ?WT)"
    proof (rule fold_upt_invariant[where I = "\<lambda>block_x V. V = scatter cfg inp C V0 (ch * ?P + block_y * ?WT + block_x)"])
      show "scatter cfg inp C V0 (ch * ?P + block_y * ?WT)
            = scatter cfg inp C V0 (ch * ?P + block_y * ?WT + 0)"
        by simp
    next
      fix block_x t
      assume bx: "block_x < ?WT"
        and t: "t = scatter cfg inp C V0 (ch * ?P + block_y * ?WT + block_x)"
      show "?tile block_y block_x t = scatter cfg inp C V0 (ch * ?P + block_y * ?WT + Suc block_x)"
        unfolding t Let_def using direct_tile[OF assms hy bx, of inp V0] by simp
    qed
    moreover have "ch * ?P + block_y * ?WT + ?WT = ch * ?P + Suc block_y * ?WT"
      by simp
    ultimately show ?thesis by (simp only:)
  qed
  have "fold (\<lambda>block_y. fold (?tile block_y) [0..<?WT]) [0..<?WT] (scatter cfg inp C V0 (ch * ?P))
        = scatter cfg inp C V0 (ch * ?P + ?WT * ?WT)"
  proof (rule fold_upt_invariant[where I = "\<lambda>block_y V. V = scatter cfg inp C V0 (ch * ?P + block_y * ?WT)"])
    show "scatter cfg inp C V0 (ch * ?P) = scatter cfg inp C V0 (ch * ?P + 0 * ?WT)"
      by simp
  next
    fix block_y t
    assume "block_y < ?WT" and "t = scatter cfg inp C V0 (ch * ?P + block_y * ?WT)"
    then show "fold (?tile block_y) [0..<?WT] t = scatter cfg inp C V0 (ch * ?P + Suc block_y * ?WT)"
      using row by simp
  qed
  moreover have "ch * ?P + ?WT * ?WT = Suc ch * ?P"
    by (simp add: WINOGRAD_P_def)
  ultimately show ?thesis by (simp only:)
qed

lemma winograd_transform_in_direct_scatter:
  "winograd_transform_in_direct cfg inp V0 C = scatter cfg inp C V0 (C * WINOGRAD_P cfg)"
proof -
  let ?body = "\<lambda>ch (in_pad, V).
            (let in_pad1 = copy_plane cfg inp ch in_pad
             in (in_pad1,
                 fold (\<lambda>block_y. fold (\<lambda>block_x V.
                        (let T1 = tile_T1 cfg in_pad1 (WINOGRAD_M * block_y) (WINOGRAD_M * block_x)
                         in fold (\<lambda>i. fold (\<lambda>j V.
                                V[(i * WINOGRAD_ALPHA + j) * C * WINOGRAD_P cfg + ch * WINOGRAD_P cfg
                                    + (block_y * WINOGRAD_WTILES cfg + block_x)
                                  := tile_acc cfg T1 i j])
                              [0..<WINOGRAD_ALPHA])
                            [0..<WINOGRAD_ALPHA] V))
                      [0..<WINOGRAD_WTILES cfg])
                   [0..<WINOGRAD_WTILES cfg] V))"
  have "fold ?body [0..<C] (replicate (Wpad cfg) (replicate (Wpad cfg) 0), V0)
        = (in_pad_upto cfg inp C, scatter cfg inp C V0 (C * WINOGRAD_P cfg))"
  proof (rule fold_upt_invariant[where I = "\<lambda>ch s. s = (in_pad_upto cfg inp ch, scatter cfg inp C V0 (ch * WINOGRAD_P cfg))"])
    show "(replicate (Wpad cfg) (replicate (Wpad cfg) 0), V0)
          = (in_pad_upto cfg inp 0, scatter cfg inp C V0 (0 * WINOGRAD_P cfg))"
      by (simp add: in_pad_upto_def scatter_0)
  next
    fix ch t
    assume ch: "ch < C"
      and t: "t = (in_pad_upto cfg inp ch, scatter cfg inp C V0 (ch * WINOGRAD_P cfg))"
    show "?body ch t = (in_pad_upto cfg inp (Suc ch), scatter cfg inp C V0 (Suc ch * WINOGRAD_P cfg))"
      unfolding t prod.case Let_def in_pad_upto_Suc[symmetric]
      using direct_channel[OF ch, of cfg inp V0] by (simp add: Let_def)
  qed
  then show ?thesis
    unfolding winograd_transform_in_direct_def by simp
qed

lemma tile_to_buffer_stores:
  "tile_to_buffer cfg T1 entries
   = apply_stores (concat (map (\<lambda>i. map (\<lambda>j.
        (buffersize * (i * WINOGRAD_ALPHA + j) + entries, tile_acc cfg T1 i j))
        [0..<WINOGRAD_ALPHA]) [0..<WINOGRAD_ALPHA]))"
  unfolding tile_to_buffer_def by (simp only: fold_store fold_apply_stores)

lemma length_tile_to_buffer [simp]: "length (tile_to_buffer cfg T1 entries buf) = length buf"
  by (simp add: tile_to_buffer_stores)

lemma buffer_cell_unique:
  fixes band e band' e' :: nat
  assumes "e < buffersize" and "e' < buffersize"
    and "buffersize * band + e = buffersize * band' + e'"
  shows "band = band' \<and> e = e'"
proof -
  have "(band * buffersize + e) div buffersize = band" "(band * buffersize + e) mod buffersize = e"
    "(band' * buffersize + e') div buffersize = band'" "(band' * buffersize + e') mod buffersize = e'"
    using assms(1,2) by simp_all
  moreover have "band * buffersize + e = band' * buffersize + e'"
    using assms(3) by (simp add: mult.commute)
  ultimately show ?thesis by metis
qed

lemma tile_to_buffer_nth:
  assumes len: "length buf = buffersize * WINOGRAD_TILE"
    and band: "band < WINOGRAD_TILE" and e: "e < buffersize" and entries: "entries < buffersize"
  shows "tile_to_buffer cfg T1 entries buf ! (band * buffersize + e)
         = (if e = entries then tile_acc cfg T1 (band div WINOGRAD_ALPHA) (band mod WINOGRAD_ALPHA)
            else buf ! (band * buffersize + e))"
proof -
  let ?ws = "concat (map (\<lambda>i. map (\<lambda>j.
        (buffersize * (i * WINOGRAD_ALPHA + j) + entries, tile_acc cfg T1 i j))
        [0..<WINOGRAD_ALPHA]) [0..<WINOGRAD_ALPHA])"
  note iff = band_stores_iff[of _ _ "\<lambda>band. buffersize * band + entries" "tile_acc cfg T1"]
  have "band * buffersize + e < WINOGRAD_TILE * buffersize"
    using band e by (rule cell_index_less)
  then have idx: "band * buffersize + e < length buf"
    unfolding len by (simp only: mult.commute)
  show ?thesis
  proof (cases "e = entries")
    case True
    have mem: "(band * buffersize + e, tile_acc cfg T1 (band div WINOGRAD_ALPHA) (band mod WINOGRAD_ALPHA))
               \<in> set ?ws"
      unfolding iff using band True by (auto simp: mult.commute)
    have uniq: "v' = tile_acc cfg T1 (band div WINOGRAD_ALPHA) (band mod WINOGRAD_ALPHA)"
      if "(band * buffersize + e, v') \<in> set ?ws" for v'
    proof -
      from that obtain band' where b': "band * buffersize + e = buffersize * band' + entries"
        "v' = tile_acc cfg T1 (band' div WINOGRAD_ALPHA) (band' mod WINOGRAD_ALPHA)"
        unfolding iff by blast
      have "buffersize * band + e = buffersize * band' + entries"
        using b'(1) by (simp add: mult.commute)
      then have "band = band'"
        using buffer_cell_unique[OF e entries] by blast
      then show ?thesis
        using b'(2) by simp
    qed
    have "apply_stores ?ws buf ! (band * buffersize + e)
          = tile_acc cfg T1 (band div WINOGRAD_ALPHA) (band mod WINOGRAD_ALPHA)"
      by (rule apply_stores_nth_written[OF idx mem uniq])
    then show ?thesis
      using True by (simp add: tile_to_buffer_stores)
  next
    case False
    have "band * buffersize + e \<notin> fst ` set ?ws"
    proof
      assume "band * buffersize + e \<in> fst ` set ?ws"
      then obtain v' where "(band * buffersize + e, v') \<in> set ?ws"
        by (auto simp: image_iff)
      then obtain band' where "band * buffersize + e = buffersize * band' + entries"
        unfolding iff by blast
      then have "buffersize * band + e = buffersize * band' + entries"
        by (simp add: mult.commute)
      then have "e = entries"
        using buffer_cell_unique[OF e entries] by blast
      then show False
        using False by simp
    qed
    then have "apply_stores ?ws buf ! (band * buffersize + e) = buf ! (band * buffersize + e)"
      by (rule apply_stores_nth_unwritten)
    then show ?thesis
      using False by (simp add: tile_to_buffer_stores)
  qed
qed

lemma flush_buffer_stores:
  "flush_buffer cfg C buf offset entries
   = apply_stores (concat (map (\<lambda>i. map (\<lambda>entry.
        (i * C * WINOGRAD_P cfg + offset + entry, buf ! (i * buffersize + entry)))
        [0..<entries]) [0..<WINOGRAD_TILE]))"
  unfolding flush_buffer_def WINOGRAD_TILE_def by (simp only: fold_store fold_apply_stores)

lemma flush_buffer_scatter:
  assumes buf: "\<And>e band. e < entries \<Longrightarrow> band < WINOGRAD_TILE \<Longrightarrow>
                  buf ! (band * buffersize + e) = tile_value cfg inp (offset + e) band"
    and hi: "offset + entries \<le> C * WINOGRAD_P cfg"
  shows "flush_buffer cfg C buf offset entries (scatter cfg inp C V0 offset)
         = scatter cfg inp C V0 (offset + entries)"
  unfolding flush_buffer_stores
proof (rule scatter_extend)
  show "offset \<le> offset + entries" by simp
  show "offset + entries \<le> C * WINOGRAD_P cfg" by (rule hi)
  fix idx v
  let ?ws = "concat (map (\<lambda>i. map (\<lambda>entry.
        (i * C * WINOGRAD_P cfg + offset + entry, buf ! (i * buffersize + entry)))
        [0..<entries]) [0..<WINOGRAD_TILE])"
  have "(idx, v) \<in> set ?ws \<longleftrightarrow>
        (\<exists>band<WINOGRAD_TILE. \<exists>e<entries. idx = band * C * WINOGRAD_P cfg + offset + e
            \<and> v = buf ! (band * buffersize + e))"
    by (auto simp: Bex_def)
  also have "\<dots> \<longleftrightarrow> (\<exists>band<WINOGRAD_TILE. \<exists>e<entries. idx = band * C * WINOGRAD_P cfg + (offset + e)
            \<and> v = tile_value cfg inp (offset + e) band)"
    using buf by (auto simp: add.assoc)
  also have "\<dots> \<longleftrightarrow> (\<exists>band<WINOGRAD_TILE. \<exists>m. offset \<le> m \<and> m < offset + entries
                  \<and> idx = band * C * WINOGRAD_P cfg + m \<and> v = tile_value cfg inp m band)"
  proof (intro iffI)
    assume "\<exists>band<WINOGRAD_TILE. \<exists>e<entries. idx = band * C * WINOGRAD_P cfg + (offset + e)
            \<and> v = tile_value cfg inp (offset + e) band"
    then obtain band e where "band < WINOGRAD_TILE" "e < entries"
      "idx = band * C * WINOGRAD_P cfg + (offset + e)" "v = tile_value cfg inp (offset + e) band"
      by blast
    then show "\<exists>band<WINOGRAD_TILE. \<exists>m. offset \<le> m \<and> m < offset + entries
                  \<and> idx = band * C * WINOGRAD_P cfg + m \<and> v = tile_value cfg inp m band"
      by (intro exI[of _ band] conjI exI[of _ "offset + e"]) simp_all
  next
    assume "\<exists>band<WINOGRAD_TILE. \<exists>m. offset \<le> m \<and> m < offset + entries
                  \<and> idx = band * C * WINOGRAD_P cfg + m \<and> v = tile_value cfg inp m band"
    then obtain band m where bm: "band < WINOGRAD_TILE" "offset \<le> m" "m < offset + entries"
      "idx = band * C * WINOGRAD_P cfg + m" "v = tile_value cfg inp m band"
      by blast
    then have "m - offset < entries" "m = offset + (m - offset)"
      by simp_all
    then show "\<exists>band<WINOGRAD_TILE. \<exists>e<entries. idx = band * C * WINOGRAD_P cfg + (offset + e)
            \<and> v = tile_value cfg inp (offset + e) band"
      using bm(1,4,5) by (intro exI[of _ band] conjI exI[of _ "m - offset"]) simp_all
  qed
  finally show "(idx, v) \<in> set ?ws \<longleftrightarrow>
               (\<exists>band<WINOGRAD_TILE. \<exists>m. offset \<le> m \<and> m < offset + entries
                  \<and> idx = band * C * WINOGRAD_P cfg + m \<and> v = tile_value cfg inp m band)" .
qed

lemma last_cell_iff:
  fixes b c n ss :: nat
  assumes "b < ss" and "c < n"
  shows "Suc (c * ss + b) = n * ss \<longleftrightarrow> c = n - 1 \<and> b = ss - 1"
proof
  assume eq: "Suc (c * ss + b) = n * ss"
  obtain d where n: "n = Suc c + d"
    using assms(2) by (metis Suc_leI le_Suc_ex)
  have "n * ss = c * ss + ss + d * ss"
    unfolding n by (simp add: algebra_simps)
  then have "Suc b = ss + d * ss"
    using eq by simp
  moreover have "Suc b \<le> ss"
    using assms(1) by simp
  ultimately have "d * ss = 0" "Suc b = ss"
    by simp_all
  then have "d = 0"
    using assms(1) by auto
  then show "c = n - 1 \<and> b = ss - 1"
    using n \<open>Suc b = ss\<close> by auto
next
  assume a: "c = n - 1 \<and> b = ss - 1"
  then have "Suc c = n" "Suc b = ss"
    using assms by simp_all
  then have "n * ss = c * ss + ss"
    by (metis mult_Suc add.commute)
  then show "Suc (c * ss + b) = n * ss"
    using \<open>Suc b = ss\<close> by simp
qed

lemma last_tile_iff:
  assumes "ch < C" and "block_y < WINOGRAD_WTILES cfg" and "block_x < WINOGRAD_WTILES cfg"
  shows "(ch = C - 1 \<and> block_x = WINOGRAD_WTILES cfg - 1 \<and> block_y = WINOGRAD_WTILES cfg - 1)
         \<longleftrightarrow> Suc (ch * WINOGRAD_P cfg + block_y * WINOGRAD_WTILES cfg + block_x) = C * WINOGRAD_P cfg"
proof -
  let ?WT = "WINOGRAD_WTILES cfg"
  let ?t = "block_y * ?WT + block_x"
  have lt: "?t < WINOGRAD_P cfg"
    unfolding WINOGRAD_P_def using assms(2,3) by (rule cell_index_less)
  have "Suc (ch * WINOGRAD_P cfg + ?t) = C * WINOGRAD_P cfg \<longleftrightarrow> ch = C - 1 \<and> ?t = WINOGRAD_P cfg - 1"
    using lt assms(1) by (rule last_cell_iff)
  moreover have "?t = WINOGRAD_P cfg - 1 \<longleftrightarrow> Suc ?t = ?WT * ?WT"
    using lt by (auto simp: WINOGRAD_P_def)
  moreover have "Suc ?t = ?WT * ?WT \<longleftrightarrow> block_y = ?WT - 1 \<and> block_x = ?WT - 1"
    using assms(3,2) by (rule last_cell_iff)
  ultimately show ?thesis
    by (auto simp: add.assoc)
qed

lemma tile_step_inv:
  assumes inv: "transform_in_inv cfg inp C V0 n st"
    and pad: "st_in_pad st = in_pad_upto cfg inp (Suc ch)"
    and n: "n = ch * WINOGRAD_P cfg + block_y * WINOGRAD_WTILES cfg + block_x"
    and ch: "ch < C" and hy: "block_y < WINOGRAD_WTILES cfg" and hx: "block_x < WINOGRAD_WTILES cfg"
  shows "transform_in_inv cfg inp C V0 (Suc n) (tile_step cfg C ch block_y block_x st)
         \<and> st_in_pad (tile_step cfg C ch block_y block_x st) = st_in_pad st"
proof -
  let ?entries = "st_buffer_entries st"
  let ?T1 = "tile_T1 cfg (st_in_pad st) (WINOGRAD_M * block_y) (WINOGRAD_M * block_x)"
  let ?buf = "tile_to_buffer cfg ?T1 ?entries (st_buffer st)"
  let ?offset = "if ?entries = 0 then ch * WINOGRAD_P cfg + block_y * WINOGRAD_WTILES cfg + block_x
                 else st_buffer_offset st"
  let ?last = "ch = C - 1 \<and> block_x = WINOGRAD_WTILES cfg - 1 \<and> block_y = WINOGRAD_WTILES cfg - 1"
  from inv have len: "length (st_buffer st) = buffersize * WINOGRAD_TILE"
    and lt: "?entries < buffersize" and le: "?entries \<le> n"
    and off: "?entries \<noteq> 0 \<Longrightarrow> st_buffer_offset st = n - ?entries"
    and old: "\<And>e band. e < ?entries \<Longrightarrow> band < WINOGRAD_TILE \<Longrightarrow>
                st_buffer st ! (band * buffersize + e) = tile_value cfg inp (n - ?entries + e) band"
    and V: "st_V st = scatter cfg inp C V0 (n - ?entries)"
    unfolding transform_in_inv_def by simp_all
  have offset: "?offset = n - ?entries"
    using off n by simp
  have new: "?buf ! (band * buffersize + e) = tile_value cfg inp (n - ?entries + e) band"
    if "e < Suc ?entries" "band < WINOGRAD_TILE" for e band
  proof (cases "e = ?entries")
    case True
    have "?buf ! (band * buffersize + e)
          = tile_acc cfg ?T1 (band div WINOGRAD_ALPHA) (band mod WINOGRAD_ALPHA)"
      using tile_to_buffer_nth[OF len that(2) _ lt, of e cfg ?T1] lt True by simp
    also have "\<dots> = tile_value cfg inp n band"
      unfolding n pad by (rule tile_value_at[OF hy hx, symmetric])
    finally show ?thesis
      using True le by simp
  next
    case False
    then have e: "e < ?entries" using that(1) by simp
    then have "e < buffersize" using lt by simp
    then have "?buf ! (band * buffersize + e) = st_buffer st ! (band * buffersize + e)"
      using tile_to_buffer_nth[OF len that(2) _ lt, of e cfg ?T1] False by simp
    then show ?thesis
      using old[OF e that(2)] by simp
  qed
  have hi: "Suc n \<le> C * WINOGRAD_P cfg"
    unfolding n using tile_index_less[OF ch hy hx] by simp
  have last: "?last \<longleftrightarrow> Suc n = C * WINOGRAD_P cfg"
    unfolding n by (rule last_tile_iff[OF ch hy hx])
  show ?thesis
  proof (cases "buffersize \<le> ?entries + 1 \<or> ?last")
    case True
    have step: "tile_step cfg C ch block_y block_x st
          = st\<lparr>st_buffer := ?buf, st_buffer_offset := ?offset, st_buffer_entries := 0,
                st_V := flush_buffer cfg C ?buf ?offset (?entries + 1) (st_V st)\<rparr>"
      unfolding tile_step_def Let_def using True by (rule if_P)
    have "flush_buffer cfg C ?buf (n - ?entries) (Suc ?entries) (scatter cfg inp C V0 (n - ?entries))
          = scatter cfg inp C V0 (n - ?entries + Suc ?entries)"
      using new hi le by (intro flush_buffer_scatter) simp_all
    then have "flush_buffer cfg C ?buf ?offset (?entries + 1) (st_V st) = scatter cfg inp C V0 (Suc n)"
      using le by (simp add: offset V)
    then show ?thesis
      unfolding step using len by (simp add: transform_in_inv_def buffersize_def)
  next
    case False
    have step: "tile_step cfg C ch block_y block_x st
          = st\<lparr>st_buffer := ?buf, st_buffer_offset := ?offset, st_buffer_entries := ?entries + 1\<rparr>"
      unfolding tile_step_def Let_def using False by (rule if_not_P)
    from False have nl: "Suc n \<noteq> C * WINOGRAD_P cfg" and small: "Suc ?entries < buffersize"
      using last by auto
    have "\<forall>e<Suc ?entries. \<forall>band<WINOGRAD_TILE.
            ?buf ! (band * buffersize + e) = tile_value cfg inp (Suc n - Suc ?entries + e) band"
      using new by simp
    then show ?thesis
      unfolding step using len small le nl V offset
      by (simp add: transform_in_inv_def)
  qed
qed

lemma transform_in_inv_in_pad [simp]:
  "transform_in_inv cfg inp C V0 n (st\<lparr>st_in_pad := p\<rparr>) = transform_in_inv cfg inp C V0 n st"
  by (simp add: transform_in_inv_def)

lemma channel_step_inv:
  assumes inv: "transform_in_inv cfg inp C V0 (ch * WINOGRAD_P cfg) st"
    and pad: "st_in_pad st = in_pad_upto cfg inp ch"
    and ch: "ch < C"
  shows "transform_in_inv cfg inp C V0 (Suc ch * WINOGRAD_P cfg) (channel_step cfg inp C ch st)
         \<and> st_in_pad (channel_step cfg inp C ch st) = in_pad_upto cfg inp (Suc ch)"
proof -
  let ?WT = "WINOGRAD_WTILES cfg"
  let ?P = "WINOGRAD_P cfg"
  let ?I = "\<lambda>n t. transform_in_inv cfg inp C V0 n t \<and> st_in_pad t = in_pad_upto cfg inp (Suc ch)"
  have row: "?I (ch * ?P + Suc block_y * ?WT) (fold (tile_step cfg C ch block_y) [0..<?WT] t)"
    if hy: "block_y < ?WT" and t: "?I (ch * ?P + block_y * ?WT) t" for block_y t
  proof -
    have "?I (ch * ?P + block_y * ?WT + ?WT) (fold (tile_step cfg C ch block_y) [0..<?WT] t)"
    proof (rule fold_upt_invariant[where I = "\<lambda>block_x. ?I (ch * ?P + block_y * ?WT + block_x)"])
      show "?I (ch * ?P + block_y * ?WT + 0) t"
        using t by simp
    next
      fix block_x u
      assume hx: "block_x < ?WT" and u: "?I (ch * ?P + block_y * ?WT + block_x) u"
      show "?I (ch * ?P + block_y * ?WT + Suc block_x) (tile_step cfg C ch block_y block_x u)"
        using tile_step_inv[OF conjunct1[OF u] conjunct2[OF u] refl ch hy hx] u by simp
    qed
    moreover have "ch * ?P + block_y * ?WT + ?WT = ch * ?P + Suc block_y * ?WT"
      by simp
    ultimately show ?thesis by (simp only:)
  qed
  let ?st0 = "st\<lparr>st_in_pad := copy_plane cfg inp ch (st_in_pad st)\<rparr>"
  have "?I (ch * ?P + ?WT * ?WT)
          (fold (\<lambda>block_y. fold (tile_step cfg C ch block_y) [0..<?WT]) [0..<?WT] ?st0)"
  proof (rule fold_upt_invariant[where I = "\<lambda>block_y. ?I (ch * ?P + block_y * ?WT)"])
    show "?I (ch * ?P + 0 * ?WT) ?st0"
      using inv pad by (simp add: in_pad_upto_Suc)
  next
    fix block_y t
    assume "block_y < ?WT" and "?I (ch * ?P + block_y * ?WT) t"
    then show "?I (ch * ?P + Suc block_y * ?WT) (fold (tile_step cfg C ch block_y) [0..<?WT] t)"
      by (rule row)
  qed
  moreover have "ch * ?P + ?WT * ?WT = Suc ch * ?P"
    by (simp add: WINOGRAD_P_def)
  ultimately show ?thesis
    unfolding channel_step_def by (simp only:)
qed

lemma transform_in_inv_init: "transform_in_inv cfg inp C V0 0 (transform_in_init cfg V0)"
  by (simp add: transform_in_inv_def transform_in_init_def scatter_0 buffersize_def
      WINOGRAD_TILE_def mult.assoc)

lemma winograd_transform_in_scatter:
  "winograd_transform_in cfg inp V0 C = scatter cfg inp C V0 (C * WINOGRAD_P cfg)"
proof -
  let ?I = "\<lambda>ch st. transform_in_inv cfg inp C V0 (ch * WINOGRAD_P cfg) st
                    \<and> st_in_pad st = in_pad_upto cfg inp ch"
  have "?I C (fold (channel_step cfg inp C) [0..<C] (transform_in_init cfg V0))"
  proof (rule fold_upt_invariant[where I = ?I])
    show "?I 0 (transform_in_init cfg V0)"
      using transform_in_inv_init[of cfg inp C V0]
      by (simp add: in_pad_upto_def transform_in_init_def)
  next
    fix ch st
    assume "ch < C" and "?I ch st"
    then show "?I (Suc ch) (channel_step cfg inp C ch st)"
      using channel_step_inv by blast
  qed
  then show ?thesis
    unfolding winograd_transform_in_def by (simp add: transform_in_inv_def)
qed

lemma length_winograd_transform_in: "length (winograd_transform_in cfg inp V0 C) = length V0"
  by (simp add: winograd_transform_in_scatter)

lemma fold_row_update:
  "fold (\<lambda>xin p. p[k := (p ! k)[xin + 1 := g xin]]) [0..<n] p
   = p[k := fold (\<lambda>xin row. row[xin + 1 := g xin]) [0..<n] (p ! k)]"
proof (cases "k < length p")
  case True
  show ?thesis
  proof (induction n)
    case 0
    then show ?case by simp
  next
    case (Suc n)
    then show ?case using True by simp
  qed
next
  case False
  then have "fold (\<lambda>xin p. p[k := (p ! k)[xin + 1 := g xin]]) [0..<n] p = p"
    by (induction n) (simp_all add: list_update_beyond)
  then show ?thesis
    using False by (simp add: list_update_beyond)
qed

lemma copy_plane_rows:
  "copy_plane cfg inp ch p
   = fold (\<lambda>yin p. p[1 + yin :=
        fold (\<lambda>xin row. row[1 + xin :=
                inp ! (ch * (BOARD_SIZE cfg * BOARD_SIZE cfg) + yin * BOARD_SIZE cfg + xin)])
          [0..<BOARD_SIZE cfg] (p ! (1 + yin))])
       [0..<BOARD_SIZE cfg] p"
  unfolding copy_plane_def fold_row_update by (simp only: add.commute[of _ 1])

lemma length_copy_plane [simp]: "length (copy_plane cfg inp ch p) = length p"
  unfolding copy_plane_rows by (rule length_fold_modify)

lemma copy_plane_nth:
  assumes "r < length p" and "c < length (p ! r)"
  shows "length (copy_plane cfg inp ch p ! r) = length (p ! r)"
    and "copy_plane cfg inp ch p ! r ! c
         = (if 1 \<le> r \<and> r \<le> BOARD_SIZE cfg \<and> 1 \<le> c \<and> c \<le> BOARD_SIZE cfg
            then inp ! (ch * (BOARD_SIZE cfg * BOARD_SIZE cfg) + (r - 1) * BOARD_SIZE cfg + (c - 1))
            else p ! r ! c)"
proof -
  let ?H = "BOARD_SIZE cfg"
  let ?row = "\<lambda>i row. fold (\<lambda>xin row. row[1 + xin := inp ! (ch * (?H * ?H) + (i - 1) * ?H + xin)])
                  [0..<?H] row"
  have "copy_plane cfg inp ch p
        = fold (\<lambda>yin p. p[1 + yin := ?row (1 + yin) (p ! (1 + yin))]) [0..<?H] p"
    unfolding copy_plane_rows by simp
  then have rows: "copy_plane cfg inp ch p ! r
        = (if 1 \<le> r \<and> r < 1 + ?H then ?row r (p ! r) else p ! r)"
    using fold_modify_nth[OF assms(1), of 1 ?row ?H] by simp
  show "length (copy_plane cfg inp ch p ! r) = length (p ! r)"
    unfolding rows by (simp add: length_fold_modify)
  have "?row r (p ! r) ! c
        = (if 1 \<le> c \<and> c < 1 + ?H then inp ! (ch * (?H * ?H) + (r - 1) * ?H + (c - 1)) else p ! r ! c)"
    using fold_store_nth[OF assms(2), of 1 "\<lambda>xin. inp ! (ch * (?H * ?H) + (r - 1) * ?H + xin)" ?H]
    by simp
  then show "copy_plane cfg inp ch p ! r ! c
         = (if 1 \<le> r \<and> r \<le> ?H \<and> 1 \<le> c \<and> c \<le> ?H
            then inp ! (ch * (?H * ?H) + (r - 1) * ?H + (c - 1))
            else p ! r ! c)"
    unfolding rows by auto
qed

lemma zero_border_padded_plane: "zero_border cfg (padded_plane cfg inp ch)"
  by (simp add: zero_border_def padded_plane_def)

lemma copy_plane_padded:
  assumes "zero_border cfg p"
  shows "copy_plane cfg inp ch p = padded_plane cfg inp ch"
proof (rule nth_equalityI)
  show "length (copy_plane cfg inp ch p) = length (padded_plane cfg inp ch)"
    using assms by (simp add: zero_border_def padded_plane_def)
next
  fix r
  assume "r < length (copy_plane cfg inp ch p)"
  then have r: "r < Wpad cfg" "r < length p"
    using assms by (simp_all add: zero_border_def)
  have lr: "length (p ! r) = Wpad cfg"
    using assms r by (simp add: zero_border_def)
  show "copy_plane cfg inp ch p ! r = padded_plane cfg inp ch ! r"
  proof (rule nth_equalityI)
    show "length (copy_plane cfg inp ch p ! r) = length (padded_plane cfg inp ch ! r)"
    proof (cases "Wpad cfg")
      case 0
      then show ?thesis using r by simp
    next
      case (Suc m)
      then have "0 < length (p ! r)" using lr by simp
      then show ?thesis
        using copy_plane_nth(1)[OF r(2), of 0 cfg inp ch] lr r by (simp add: padded_plane_def)
    qed
  next
    fix c
    assume "c < length (copy_plane cfg inp ch p ! r)"
    then have c: "c < length (p ! r)"
    proof (cases "Wpad cfg")
      case 0
      then show ?thesis using r by simp
    next
      case (Suc m)
      assume a: "c < length (copy_plane cfg inp ch p ! r)"
      have "0 < length (p ! r)" using lr Suc by simp
      then show ?thesis
        using copy_plane_nth(1)[OF r(2), of 0 cfg inp ch] a by simp
    qed
    then have cw: "c < Wpad cfg" using lr by simp
    have "\<not> (1 \<le> r \<and> r \<le> BOARD_SIZE cfg \<and> 1 \<le> c \<and> c \<le> BOARD_SIZE cfg) \<Longrightarrow> p ! r ! c = 0"
      using assms r(1) cw by (simp add: zero_border_def)
    then show "copy_plane cfg inp ch p ! r ! c = padded_plane cfg inp ch ! r ! c"
      using copy_plane_nth(2)[OF r(2) c, of cfg inp ch] r(1) cw
      by (auto simp: padded_plane_def)
  qed
qed

lemma in_pad_upto_padded: "in_pad_upto cfg inp (Suc ch) = padded_plane cfg inp ch"
proof -
  have "zero_border cfg (in_pad_upto cfg inp ch)"
  proof (cases ch)
    case 0
    then show ?thesis by (simp add: in_pad_upto_def zero_border_def)
  next
    case (Suc m)
    have "zero_border cfg (in_pad_upto cfg inp k) \<Longrightarrow> zero_border cfg (in_pad_upto cfg inp (Suc k))" for k
      unfolding in_pad_upto_Suc by (simp add: copy_plane_padded zero_border_padded_plane)
    moreover have "zero_border cfg (in_pad_upto cfg inp 0)"
      by (simp add: in_pad_upto_def zero_border_def)
    ultimately show ?thesis
      by (induction ch) simp_all
  qed
  then show ?thesis
    unfolding in_pad_upto_Suc by (rule copy_plane_padded)
qed

lemma tile_value_padded:
  assumes "t < WINOGRAD_P cfg"
  shows "tile_value cfg inp (ch * WINOGRAD_P cfg + t) band
         = tile_acc cfg (tile_T1 cfg (padded_plane cfg inp ch)
                           (WINOGRAD_M * (t div WINOGRAD_WTILES cfg))
                           (WINOGRAD_M * (t mod WINOGRAD_WTILES cfg)))
             (band div WINOGRAD_ALPHA) (band mod WINOGRAD_ALPHA)"
proof -
  let ?WT = "WINOGRAD_WTILES cfg"
  have "(ch * WINOGRAD_P cfg + t) div WINOGRAD_P cfg = ch"
    using assms by (rule cell_index_div)
  moreover have "(ch * WINOGRAD_P cfg + t) mod WINOGRAD_P cfg = t"
    using assms by simp
  moreover have "(ch * WINOGRAD_P cfg + t) mod ?WT = t mod ?WT"
  proof -
    have "ch * WINOGRAD_P cfg + t = t + (ch * ?WT) * ?WT"
      by (simp add: WINOGRAD_P_def)
    then show ?thesis
      by (simp only: mod_mult_self1)
  qed
  ultimately show ?thesis
    unfolding tile_value_def by (simp only: in_pad_upto_padded)
qed

lemma scatter_full_nth:
  assumes "band < WINOGRAD_TILE" and "m < C * WINOGRAD_P cfg"
    and "band * C * WINOGRAD_P cfg + m < length V0"
  shows "scatter cfg inp C V0 (C * WINOGRAD_P cfg) ! (band * C * WINOGRAD_P cfg + m)
         = tile_value cfg inp m band"
proof -
  let ?CP = "C * WINOGRAD_P cfg"
  have e: "band * C * WINOGRAD_P cfg + m = band * ?CP + m"
    by (simp add: mult.assoc)
  have "band * ?CP + m < WINOGRAD_TILE * ?CP"
    using assms(2,1) by (rule cell_index_less[rotated])
  moreover have "(band * ?CP + m) div ?CP = band"
    using assms(2) by (rule cell_index_div)
  moreover have "(band * ?CP + m) mod ?CP = m"
    using assms(2) by simp
  ultimately show ?thesis
    using assms(2,3) unfolding e by (simp add: scatter_def)
qed

lemma winograd_transform_in_nth:
  assumes "band < WINOGRAD_TILE" and "ch < C" and "t < WINOGRAD_P cfg"
    and "band * C * WINOGRAD_P cfg + ch * WINOGRAD_P cfg + t < length V0"
  shows "winograd_transform_in cfg inp V0 C ! (band * C * WINOGRAD_P cfg + ch * WINOGRAD_P cfg + t)
         = tile_acc cfg (tile_T1 cfg (padded_plane cfg inp ch)
                           (WINOGRAD_M * (t div WINOGRAD_WTILES cfg))
                           (WINOGRAD_M * (t mod WINOGRAD_WTILES cfg)))
             (band div WINOGRAD_ALPHA) (band mod WINOGRAD_ALPHA)"
proof -
  have m: "ch * WINOGRAD_P cfg + t < C * WINOGRAD_P cfg"
    using assms(2,3) by (rule cell_index_less)
  have "scatter cfg inp C V0 (C * WINOGRAD_P cfg)
          ! (band * C * WINOGRAD_P cfg + (ch * WINOGRAD_P cfg + t))
        = tile_value cfg inp (ch * WINOGRAD_P cfg + t) band"
    using assms(1) m assms(4) by (intro scatter_full_nth) (simp_all add: add.assoc)
  then show ?thesis
    by (simp add: winograd_transform_in_scatter tile_value_padded[OF assms(3)] add.assoc)
qed

text \<open>
  Claim C7. The buffered scatter of \<^verbatim>\<open>winograd_transform_in\<close> (up to 32 tiles gathered in
  the buffer, flushed when it is full and at the last tile of the last channel) gives
  the same \<^verbatim>\<open>V\<close> as storing the 36 values of each tile directly, with no buffer; and for
  every band below 36, channel below \<open>C\<close> and tile index below \<open>P\<close> the cell
  \<open>band * C * P + channel * P + tile_index\<close> of \<^verbatim>\<open>V\<close>, when \<^verbatim>\<open>V\<close> has it, holds value
  \<open>band\<close> of \<^verbatim>\<open>Bt . tile . B\<close> for that tile of the zero-padded plane of that channel.
\<close>

theorem winograd_transform_in_buffering:
  "winograd_transform_in cfg inp V0 C = winograd_transform_in_direct cfg inp V0 C
   \<and> (\<forall>band<WINOGRAD_TILE. \<forall>ch<C. \<forall>t<WINOGRAD_P cfg.
        band * C * WINOGRAD_P cfg + ch * WINOGRAD_P cfg + t < length V0 \<longrightarrow>
        winograd_transform_in cfg inp V0 C ! (band * C * WINOGRAD_P cfg + ch * WINOGRAD_P cfg + t)
        = tile_acc cfg (tile_T1 cfg (padded_plane cfg inp ch)
                          (WINOGRAD_M * (t div WINOGRAD_WTILES cfg))
                          (WINOGRAD_M * (t mod WINOGRAD_WTILES cfg)))
            (band div WINOGRAD_ALPHA) (band mod WINOGRAD_ALPHA))"
  using winograd_transform_in_nth
  by (simp only: winograd_transform_in_scatter winograd_transform_in_direct_scatter) blast

text \<open>The property on the one-tile board, at band 7 of the tile of a one-channel input.\<close>

theorem winograd_transform_in_buffering_witness:
  "winograd_transform_in example_cfg [1] (replicate 36 0) 1
     = winograd_transform_in_direct example_cfg [1] (replicate 36 0) 1
   \<and> winograd_transform_in example_cfg [1] (replicate 36 0) 1
        ! (7 * 1 * WINOGRAD_P example_cfg + 0 * WINOGRAD_P example_cfg + 0)
     = tile_acc example_cfg (tile_T1 example_cfg (padded_plane example_cfg [1] 0)
                          (WINOGRAD_M * (0 div WINOGRAD_WTILES example_cfg))
                          (WINOGRAD_M * (0 mod WINOGRAD_WTILES example_cfg)))
            (7 div WINOGRAD_ALPHA) (7 mod WINOGRAD_ALPHA)"
proof -
  note inst = winograd_transform_in_buffering[of example_cfg "[1]" "replicate 36 0" 1]
  have h1: "7 < WINOGRAD_TILE" by (simp add: WINOGRAD_TILE_36)
  have h2: "(0::nat) < 1" by simp
  have h3: "0 < WINOGRAD_P example_cfg" by (simp add: example_cfg_simps)
  have h4: "7 * 1 * WINOGRAD_P example_cfg + 0 * WINOGRAD_P example_cfg + 0
            < length (replicate 36 (0::real))"
    by (simp add: example_cfg_simps)
  show ?thesis
    using inst[THEN conjunct1] inst[THEN conjunct2, rule_format, OF h1 h2 h3 h4]
    by (rule conjI)
qed

section \<open>Round trip through the transforms\<close>

lemma winograd_sgemm_cell:
  assumes "b < WINOGRAD_TILE" and "k < K" and "p < WINOGRAD_P cfg"
    and "b * K * WINOGRAD_P cfg + k * WINOGRAD_P cfg + p < length M0"
  shows "winograd_sgemm cfg U V0 M0 C K ! (b * K * WINOGRAD_P cfg + k * WINOGRAD_P cfg + p)
           = (\<Sum>c<C. U ! (b * K * C + c * K + k)
                     * V0 ! (b * C * WINOGRAD_P cfg + c * WINOGRAD_P cfg + p))"
proof -
  let ?P = "WINOGRAD_P cfg"
  have lt: "b * K * ?P + k * ?P + p < WINOGRAD_TILE * (K * ?P)"
    using assms(1-3) by (rule band_index_less)
  show ?thesis
    using lt band_index_decode[OF assms(2,3), of b]
    by (simp add: winograd_sgemm_nth[OF assms(4)])
qed

lemma identity_U_nth:
  assumes "b < WINOGRAD_TILE" and "c < K" and "k < K"
  shows "identity_U K ! (b * K * K + c * K + k) = (if c = k then 1 else 0)"
proof -
  have lt: "b * K * K + c * K + k < WINOGRAD_TILE * K * K"
    using band_index_less[OF assms] by (simp add: mult.assoc)
  have e: "b * K * K + c * K + k = (b * K + c) * K + k"
    by (simp add: algebra_simps)
  have "(b * K * K + c * K + k) mod K = k"
    unfolding e using assms(3) by simp
  moreover have "(b * K * K + c * K + k) div K mod K = c"
  proof -
    have "(b * K * K + c * K + k) div K = b * K + c"
      unfolding e using assms(3) by (rule cell_index_div)
    then show ?thesis
      using assms(2) by simp
  qed
  ultimately show ?thesis
    using lt by (simp add: identity_U_def)
qed

lemma identity_gemm_cell:
  assumes "b < WINOGRAD_TILE" and "k < C" and "p < WINOGRAD_P cfg"
    and "b * C * WINOGRAD_P cfg + k * WINOGRAD_P cfg + p < length M0"
  shows "winograd_sgemm cfg (identity_U C) V0 M0 C C ! (b * C * WINOGRAD_P cfg + k * WINOGRAD_P cfg + p)
         = V0 ! (b * C * WINOGRAD_P cfg + k * WINOGRAD_P cfg + p)"
proof -
  have "(\<Sum>c<C. identity_U C ! (b * C * C + c * C + k)
                     * V0 ! (b * C * WINOGRAD_P cfg + c * WINOGRAD_P cfg + p))
        = (\<Sum>c<C. (if c = k then 1 else 0) * V0 ! (b * C * WINOGRAD_P cfg + c * WINOGRAD_P cfg + p))"
    by (rule sum.cong) (simp_all add: identity_U_nth[OF assms(1) _ assms(2)])
  also have "\<dots> = (\<Sum>c<C. if c = k then V0 ! (b * C * WINOGRAD_P cfg + c * WINOGRAD_P cfg + p) else 0)"
    by (rule sum.cong) simp_all
  also have "\<dots> = V0 ! (b * C * WINOGRAD_P cfg + k * WINOGRAD_P cfg + p)"
    using assms(2) by (simp add: sum.delta')
  finally show ?thesis
    by (simp add: winograd_sgemm_cell[OF assms])
qed

lemma roundtrip_gather:
  assumes k: "k < C" and hy: "block_y < WINOGRAD_WTILES cfg" and hx: "block_x < WINOGRAD_WTILES cfg"
    and lenV: "WINOGRAD_TILE * C * WINOGRAD_P cfg \<le> length V0"
    and lenM: "WINOGRAD_TILE * C * WINOGRAD_P cfg \<le> length M0"
  shows "gather_temp_m cfg
           (winograd_sgemm cfg (identity_U C) (winograd_transform_in cfg inp V0 C) M0 C C) C k
           (block_y * WINOGRAD_WTILES cfg + block_x)
         = winograd_tile cfg (padded_plane cfg inp k) block_y block_x"
proof -
  let ?P = "WINOGRAD_P cfg"
  let ?WT = "WINOGRAD_WTILES cfg"
  let ?b = "block_y * ?WT + block_x"
  let ?V = "winograd_transform_in cfg inp V0 C"
  have b: "?b < ?P"
    unfolding WINOGRAD_P_def using hy hx by (rule cell_index_less)
  have bd: "?b div ?WT = block_y" "?b mod ?WT = block_x"
    using hx by simp_all
  have cell: "winograd_sgemm cfg (identity_U C) ?V M0 C C
                ! ((xi * WINOGRAD_ALPHA + nu) * C * ?P + k * ?P + ?b)
              = tile_acc cfg (tile_T1 cfg (padded_plane cfg inp k)
                                (WINOGRAD_M * block_y) (WINOGRAD_M * block_x)) xi nu"
    if xi: "xi < WINOGRAD_ALPHA" and nu: "nu < WINOGRAD_ALPHA" for xi nu
  proof -
    let ?band = "xi * WINOGRAD_ALPHA + nu"
    have band: "?band < WINOGRAD_TILE"
      unfolding WINOGRAD_TILE_def using xi nu by (rule cell_index_less)
    have dm: "?band div WINOGRAD_ALPHA = xi" "?band mod WINOGRAD_ALPHA = nu"
      using nu by simp_all
    have lt: "?band * C * ?P + k * ?P + ?b < WINOGRAD_TILE * C * ?P"
      using band_index_less[OF band k b] by (simp add: mult.assoc)
    have "winograd_sgemm cfg (identity_U C) ?V M0 C C ! (?band * C * ?P + k * ?P + ?b)
          = ?V ! (?band * C * ?P + k * ?P + ?b)"
      using lt lenM by (intro identity_gemm_cell[OF band k b]) simp
    also have "\<dots> = tile_acc cfg (tile_T1 cfg (padded_plane cfg inp k)
                           (WINOGRAD_M * (?b div ?WT)) (WINOGRAD_M * (?b mod ?WT)))
                         (?band div WINOGRAD_ALPHA) (?band mod WINOGRAD_ALPHA)"
      using lt lenV by (intro winograd_transform_in_nth[OF band k b]) simp
    finally show ?thesis
      by (simp only: bd dm)
  qed
  show ?thesis
    unfolding gather_temp_m_def winograd_tile_def
    by (intro map_cong refl) (simp add: cell)
qed

lemma leela_cfg_simps:
  "BOARD_SIZE leela_cfg = 19" "WINOGRAD_WTILES leela_cfg = 5" "WINOGRAD_P leela_cfg = 25"
  "NUM_INTERSECTIONS leela_cfg = 361" "Wpad leela_cfg = 22" "SQ2 leela_cfg = sqrt 2"
  by (simp_all add: leela_cfg_def WINOGRAD_WTILES_def WINOGRAD_P_def WINOGRAD_M_def
      NUM_INTERSECTIONS_def Wpad_def)

lemma upt_0_6: "[0..<6] = [0, 1, 2, 3, 4, 5]"
  by (simp add: upt_rec)

lemma upt_0_4: "[0..<4] = [0, 1, 2, 3]"
  by (simp add: upt_rec)

lemma impulse_tile:
  "winograd_tile leela_cfg (padded_plane leela_cfg impulse_plane 0) 0 0
   = [[0, 0, 0, 0, 0, 0],
      [0, 2, -2, 1, -1, - sqrt 2],
      [0, -2, 2, -1, 1, sqrt 2],
      [0, 1, -1, 1/2, -1/2, - sqrt 2 / 2],
      [0, -1, 1, -1/2, 1/2, sqrt 2 / 2],
      [0, - sqrt 2, sqrt 2, - sqrt 2 / 2, sqrt 2 / 2, 1]]"
  by (simp add: winograd_tile_def tile_acc_def tile_T1_def padded_plane_def Bt_def
      WINOGRAD_ALPHA_6 WINOGRAD_M_def leela_cfg_simps impulse_plane_def Let_def upt_0_6)

lemma impulse_tile_out:
  "tile_o leela_cfg (tile_temp leela_cfg
      (winograd_tile leela_cfg (padded_plane leela_cfg impulse_plane 0) 0 0))
   = [[0, 0, 0, 0],
      [0, 16, 0, 16],
      [0, 0, 0, 0],
      [0, 16, 0, 16]]"
  unfolding impulse_tile
  by (simp add: tile_o_def tile_temp_def At_def WINOGRAD_ALPHA_6 WINOGRAD_M_def leela_cfg_simps
      Let_def upt_0_6 upt_0_4 algebra_simps)

lemma winograd_roundtrip_nth:
  assumes "k < C" and "r < BOARD_SIZE cfg" and "c < BOARD_SIZE cfg"
    and "WINOGRAD_TILE * C * WINOGRAD_P cfg \<le> length V0"
    and "WINOGRAD_TILE * C * WINOGRAD_P cfg \<le> length M0"
    and "C * BOARD_SIZE cfg * BOARD_SIZE cfg \<le> length Y0"
  shows "winograd_roundtrip cfg inp C V0 M0 Y0
           ! (k * BOARD_SIZE cfg * BOARD_SIZE cfg + r * BOARD_SIZE cfg + c)
         = tile_o cfg (tile_temp cfg
             (winograd_tile cfg (padded_plane cfg inp k) (r div WINOGRAD_M) (c div WINOGRAD_M)))
           ! (r mod WINOGRAD_M) ! (c mod WINOGRAD_M)"
  unfolding winograd_roundtrip_def
  by (simp only: winograd_transform_out_nth[OF assms(1-3,6)]
      roundtrip_gather[OF assms(1) tile_coordinate_less[OF assms(2)] tile_coordinate_less[OF assms(3)]
        assms(4,5)])

text \<open>
  With the identity-like weights (band by band the identity matrix) the round trip
  leaves at position \<open>(r, c)\<close> cell \<open>(r mod 4, c mod 4)\<close> of \<^verbatim>\<open>At . (Bt . d . B) . A\<close>,
  where \<open>d\<close> is the tile of the padded plane that covers the position (lemma
  \<open>winograd_roundtrip_nth\<close>), and this is not the input cell: on the 19x19 board, for one
  channel holding a single one at position \<open>(0, 0)\<close>, the round trip leaves 0 there, and
  16 at position \<open>(1, 1)\<close>, where the input holds 0.
\<close>

theorem winograd_roundtrip_not_identity:
  "winograd_roundtrip leela_cfg impulse_plane 1 (replicate 900 0) (replicate 900 0) (replicate 361 0) ! 0 = 0
   \<and> impulse_plane ! 0 = 1
   \<and> winograd_roundtrip leela_cfg impulse_plane 1 (replicate 900 0) (replicate 900 0) (replicate 361 0) ! 20 = 16
   \<and> impulse_plane ! 20 = 0"
proof -
  have h: "(0::nat) < 1" "WINOGRAD_TILE * 1 * WINOGRAD_P leela_cfg \<le> length (replicate 900 (0::real))"
    "1 * BOARD_SIZE leela_cfg * BOARD_SIZE leela_cfg \<le> length (replicate 361 (0::real))"
    "0 < BOARD_SIZE leela_cfg" "1 < BOARD_SIZE leela_cfg"
    by (simp_all add: leela_cfg_simps WINOGRAD_TILE_36)
  have "winograd_roundtrip leela_cfg impulse_plane 1 (replicate 900 0) (replicate 900 0) (replicate 361 0)
          ! (0 * BOARD_SIZE leela_cfg * BOARD_SIZE leela_cfg + 0 * BOARD_SIZE leela_cfg + 0) = 0"
    unfolding winograd_roundtrip_nth[OF h(1) h(4) h(4) h(2) h(2) h(3)]
    by (simp add: WINOGRAD_M_def impulse_tile_out)
  moreover have "winograd_roundtrip leela_cfg impulse_plane 1 (replicate 900 0) (replicate 900 0) (replicate 361 0)
          ! (0 * BOARD_SIZE leela_cfg * BOARD_SIZE leela_cfg + 1 * BOARD_SIZE leela_cfg + 1) = 16"
    unfolding winograd_roundtrip_nth[OF h(1) h(5) h(5) h(2) h(2) h(3)]
    by (simp add: WINOGRAD_M_def impulse_tile_out)
  ultimately show ?thesis
    by (simp add: leela_cfg_simps impulse_plane_def)
qed

subsection \<open>The weights of the centred unit kernel\<close>

lemma fold_add_sum:
  "fold (\<lambda>q acc. acc + f q) [0..<n] (a::real) = a + (\<Sum>q<n. f q)"
  by (induction n) simp_all

lemma sum_6: "(\<Sum>q<(6::nat). f q) = f 0 + f 1 + f 2 + f 3 + f 4 + (f 5 :: real)"
  by (simp add: eval_nat_numeral)

lemma winograd_1d:
  assumes s: "SQ2 cfg * SQ2 cfg = 2" and i: "i < 4"
  shows "(\<Sum>q<6. At cfg ! (i * 6 + q) * identity_kernel_column cfg ! q
                  * (\<Sum>l<6. Bt cfg ! (q * 6 + l) * x l)) = x (Suc i)"
proof -
  have s2: "SQ2 cfg * (SQ2 cfg * y) = 2 * y" for y
    using s by (simp add: mult.assoc[symmetric])
  from i consider "i = 0" | "i = 1" | "i = 2" | "i = 3"
    by linarith
  then show ?thesis
  proof cases
    case 1
    then show ?thesis
      by (simp add: sum_6 At_def Bt_def identity_kernel_column_def Let_def algebra_simps s s2)
  next
    case 2
    then show ?thesis
      by (simp add: sum_6 At_def Bt_def identity_kernel_column_def Let_def algebra_simps s s2
          numeral_2_eq_2)
  next
    case 3
    then show ?thesis
      by (simp add: sum_6 At_def Bt_def identity_kernel_column_def Let_def algebra_simps s s2)
  next
    case 4
    then show ?thesis
      by (simp add: sum_6 At_def Bt_def identity_kernel_column_def Let_def algebra_simps s s2)
  qed
qed


lemma sum_rearrange_6:
  "(\<Sum>q'<(6::nat). A q' * (G q' * gq * (\<Sum>k<(6::nat). T q' k * B k)))
   = gq * (\<Sum>k<(6::nat). B k * (\<Sum>q'<(6::nat). A q' * G q' * (T q' k :: real)))"
  by (simp add: sum_6 algebra_simps)

lemma winograd_2d:
  assumes s: "SQ2 cfg * SQ2 cfg = 2" and i: "i < 4" and j: "j < 4"
  shows "(\<Sum>q<6. (\<Sum>q'<6. At cfg ! (i * 6 + q')
                     * (identity_kernel_column cfg ! q' * identity_kernel_column cfg ! q
                        * (\<Sum>k<6. (\<Sum>l<6. Bt cfg ! (q' * 6 + l) * d l k) * Bt cfg ! (q * 6 + k))))
                * At cfg ! (j * 6 + q))
         = d (Suc i) (Suc j)"
proof -
  have inner: "(\<Sum>q'<6. At cfg ! (i * 6 + q')
                     * (identity_kernel_column cfg ! q' * identity_kernel_column cfg ! q
                        * (\<Sum>k<6. (\<Sum>l<6. Bt cfg ! (q' * 6 + l) * d l k) * Bt cfg ! (q * 6 + k))))
               = identity_kernel_column cfg ! q * (\<Sum>k<6. Bt cfg ! (q * 6 + k) * d (Suc i) k)" for q
    unfolding sum_rearrange_6 winograd_1d[OF s i, of "\<lambda>l. d l k" for k] ..
  have "(\<Sum>q<6. (identity_kernel_column cfg ! q * (\<Sum>k<6. Bt cfg ! (q * 6 + k) * d (Suc i) k))
                * At cfg ! (j * 6 + q))
        = (\<Sum>q<6. At cfg ! (j * 6 + q) * identity_kernel_column cfg ! q
                * (\<Sum>k<6. Bt cfg ! (q * 6 + k) * d (Suc i) k))"
    by (rule sum.cong) (simp_all add: mult_ac)
  also have "\<dots> = d (Suc i) (Suc j)"
    by (rule winograd_1d[OF s j])
  finally show ?thesis
    unfolding inner .
qed

lemma tile_o_nth:
  assumes "i < 4" and "j < 4"
  shows "tile_o cfg temp ! i ! j = (\<Sum>q<6. temp ! i ! q * At cfg ! (j * 6 + q))"
  using assms by (simp add: tile_o_def WINOGRAD_M_def WINOGRAD_ALPHA_6 fold_add_sum)

lemma tile_temp_nth:
  assumes "i < 4" and "q < 6"
  shows "tile_temp cfg tm ! i ! q = (\<Sum>q'<6. At cfg ! (i * 6 + q') * tm ! q' ! q)"
  using assms by (simp add: tile_temp_def WINOGRAD_M_def WINOGRAD_ALPHA_6 fold_add_sum)

lemma tile_acc_sum:
  "tile_acc cfg T1 i j = (\<Sum>k<6. T1 ! i ! k * Bt cfg ! (j * 6 + k))"
  by (simp add: tile_acc_def WINOGRAD_ALPHA_6 fold_add_sum)

lemma tile_T1_nth:
  assumes "i < 6" and "j < 6"
  shows "tile_T1 cfg pad y x ! i ! j = (\<Sum>k<6. Bt cfg ! (i * 6 + k) * pad ! (y + k) ! (x + j))"
  using assms by (simp add: tile_T1_def WINOGRAD_ALPHA_6 fold_add_sum)

lemma kernel_tile_out:
  assumes s: "SQ2 cfg * SQ2 cfg = 2" and i: "i < 4" and j: "j < 4"
  shows "tile_o cfg (tile_temp cfg
           (map (\<lambda>xi. map (\<lambda>nu. identity_kernel_column cfg ! xi * identity_kernel_column cfg ! nu
                                 * tile_acc cfg (tile_T1 cfg pad y x) xi nu)
                        [0..<WINOGRAD_ALPHA])
              [0..<WINOGRAD_ALPHA])) ! i ! j
         = pad ! (y + Suc i) ! (x + Suc j)"
proof -
  let ?Mt = "map (\<lambda>xi. map (\<lambda>nu. identity_kernel_column cfg ! xi * identity_kernel_column cfg ! nu
                                 * tile_acc cfg (tile_T1 cfg pad y x) xi nu)
                        [0..<WINOGRAD_ALPHA])
              [0..<WINOGRAD_ALPHA]"
  have cell: "?Mt ! q' ! q
              = identity_kernel_column cfg ! q' * identity_kernel_column cfg ! q
                * (\<Sum>k<6. (\<Sum>l<6. Bt cfg ! (q' * 6 + l) * pad ! (y + l) ! (x + k)) * Bt cfg ! (q * 6 + k))"
    if "q' < 6" and "q < 6" for q' q
  proof -
    have "tile_acc cfg (tile_T1 cfg pad y x) q' q
          = (\<Sum>k<6. (\<Sum>l<6. Bt cfg ! (q' * 6 + l) * pad ! (y + l) ! (x + k)) * Bt cfg ! (q * 6 + k))"
      unfolding tile_acc_sum
      by (rule sum.cong) (simp_all add: tile_T1_nth[OF that(1)])
    then show ?thesis
      using that by (simp add: WINOGRAD_ALPHA_6)
  qed
  have temp: "tile_temp cfg ?Mt ! i ! q
              = (\<Sum>q'<6. At cfg ! (i * 6 + q')
                   * (identity_kernel_column cfg ! q' * identity_kernel_column cfg ! q
                      * (\<Sum>k<6. (\<Sum>l<6. Bt cfg ! (q' * 6 + l) * pad ! (y + l) ! (x + k))
                                 * Bt cfg ! (q * 6 + k))))"
    if "q < 6" for q
    unfolding tile_temp_nth[OF i that]
    by (rule sum.cong) (simp_all add: cell[OF _ that])
  have "tile_o cfg (tile_temp cfg ?Mt) ! i ! j
        = (\<Sum>q<6. (\<Sum>q'<6. At cfg ! (i * 6 + q')
                   * (identity_kernel_column cfg ! q' * identity_kernel_column cfg ! q
                      * (\<Sum>k<6. (\<Sum>l<6. Bt cfg ! (q' * 6 + l) * pad ! (y + l) ! (x + k))
                                 * Bt cfg ! (q * 6 + k))))
                * At cfg ! (j * 6 + q))"
    unfolding tile_o_nth[OF i j]
    by (rule sum.cong) (simp_all add: temp)
  also have "\<dots> = pad ! (y + Suc i) ! (x + Suc j)"
    by (rule winograd_2d[OF s i j, of "\<lambda>l k. pad ! (y + l) ! (x + k)"])
  finally show ?thesis .
qed


lemma identity_kernel_U_nth:
  assumes "b < WINOGRAD_TILE" and "c < K" and "k < K"
  shows "identity_kernel_U cfg K ! (b * K * K + c * K + k)
         = (if c = k then identity_kernel_column cfg ! (b div WINOGRAD_ALPHA)
                          * identity_kernel_column cfg ! (b mod WINOGRAD_ALPHA)
            else 0)"
proof -
  have lt: "b * K * K + c * K + k < WINOGRAD_TILE * K * K"
    using band_index_less[OF assms] by (simp add: mult.assoc)
  have e: "b * K * K + c * K + k = (b * K + c) * K + k"
    by (simp add: algebra_simps)
  have e2: "b * K * K + c * K + k = b * (K * K) + (c * K + k)"
    by (simp add: algebra_simps)
  have "(b * K * K + c * K + k) mod K = k"
    unfolding e using assms(3) by simp
  moreover have "(b * K * K + c * K + k) div K mod K = c"
  proof -
    have "(b * K * K + c * K + k) div K = b * K + c"
      unfolding e using assms(3) by (rule cell_index_div)
    then show ?thesis
      using assms(2) by simp
  qed
  moreover have "(b * K * K + c * K + k) div (K * K) = b"
    unfolding e2 using cell_index_less[OF assms(2,3)] by (rule cell_index_div)
  moreover have "identity_kernel_U cfg K ! idx
      = (if idx div K mod K = idx mod K
         then identity_kernel_column cfg ! (idx div (K * K) div WINOGRAD_ALPHA)
              * identity_kernel_column cfg ! (idx div (K * K) mod WINOGRAD_ALPHA)
         else 0)" if "idx < WINOGRAD_TILE * K * K" for idx
    using that by (simp add: identity_kernel_U_def)
  ultimately show ?thesis
    using lt by (simp only:)
qed

lemma kernel_gemm_cell:
  assumes "b < WINOGRAD_TILE" and "k < C" and "p < WINOGRAD_P cfg"
    and "b * C * WINOGRAD_P cfg + k * WINOGRAD_P cfg + p < length M0"
  shows "winograd_sgemm cfg (identity_kernel_U cfg C) V0 M0 C C
           ! (b * C * WINOGRAD_P cfg + k * WINOGRAD_P cfg + p)
         = identity_kernel_column cfg ! (b div WINOGRAD_ALPHA)
           * identity_kernel_column cfg ! (b mod WINOGRAD_ALPHA)
           * V0 ! (b * C * WINOGRAD_P cfg + k * WINOGRAD_P cfg + p)"
proof -
  let ?g = "identity_kernel_column cfg ! (b div WINOGRAD_ALPHA)
            * identity_kernel_column cfg ! (b mod WINOGRAD_ALPHA)"
  have "(\<Sum>c<C. identity_kernel_U cfg C ! (b * C * C + c * C + k)
                     * V0 ! (b * C * WINOGRAD_P cfg + c * WINOGRAD_P cfg + p))
        = (\<Sum>c<C. if c = k then ?g * V0 ! (b * C * WINOGRAD_P cfg + c * WINOGRAD_P cfg + p) else 0)"
    by (rule sum.cong) (simp_all add: identity_kernel_U_nth[OF assms(1) _ assms(2)])
  also have "\<dots> = ?g * V0 ! (b * C * WINOGRAD_P cfg + k * WINOGRAD_P cfg + p)"
    using assms(2) by (simp add: sum.delta')
  finally show ?thesis
    by (simp add: winograd_sgemm_cell[OF assms])
qed

lemma kernel_gather:
  assumes k: "k < C" and hy: "block_y < WINOGRAD_WTILES cfg" and hx: "block_x < WINOGRAD_WTILES cfg"
    and lenV: "WINOGRAD_TILE * C * WINOGRAD_P cfg \<le> length V0"
    and lenM: "WINOGRAD_TILE * C * WINOGRAD_P cfg \<le> length M0"
  shows "gather_temp_m cfg
           (winograd_sgemm cfg (identity_kernel_U cfg C) (winograd_transform_in cfg inp V0 C) M0 C C) C k
           (block_y * WINOGRAD_WTILES cfg + block_x)
         = map (\<lambda>xi. map (\<lambda>nu. identity_kernel_column cfg ! xi * identity_kernel_column cfg ! nu
                 * tile_acc cfg (tile_T1 cfg (padded_plane cfg inp k)
                                   (WINOGRAD_M * block_y) (WINOGRAD_M * block_x)) xi nu)
                      [0..<WINOGRAD_ALPHA])
             [0..<WINOGRAD_ALPHA]"
proof -
  let ?P = "WINOGRAD_P cfg"
  let ?WT = "WINOGRAD_WTILES cfg"
  let ?b = "block_y * ?WT + block_x"
  let ?V = "winograd_transform_in cfg inp V0 C"
  have b: "?b < ?P"
    unfolding WINOGRAD_P_def using hy hx by (rule cell_index_less)
  have bd: "?b div ?WT = block_y" "?b mod ?WT = block_x"
    using hx by simp_all
  have cell: "winograd_sgemm cfg (identity_kernel_U cfg C) ?V M0 C C
                ! ((xi * WINOGRAD_ALPHA + nu) * C * ?P + k * ?P + ?b)
              = identity_kernel_column cfg ! xi * identity_kernel_column cfg ! nu
                * tile_acc cfg (tile_T1 cfg (padded_plane cfg inp k)
                                  (WINOGRAD_M * block_y) (WINOGRAD_M * block_x)) xi nu"
    if xi: "xi < WINOGRAD_ALPHA" and nu: "nu < WINOGRAD_ALPHA" for xi nu
  proof -
    let ?band = "xi * WINOGRAD_ALPHA + nu"
    have band: "?band < WINOGRAD_TILE"
      unfolding WINOGRAD_TILE_def using xi nu by (rule cell_index_less)
    have dm: "?band div WINOGRAD_ALPHA = xi" "?band mod WINOGRAD_ALPHA = nu"
      using nu by simp_all
    have lt: "?band * C * ?P + k * ?P + ?b < WINOGRAD_TILE * C * ?P"
      using band_index_less[OF band k b] by (simp add: mult.assoc)
    have "winograd_sgemm cfg (identity_kernel_U cfg C) ?V M0 C C ! (?band * C * ?P + k * ?P + ?b)
          = identity_kernel_column cfg ! (?band div WINOGRAD_ALPHA)
            * identity_kernel_column cfg ! (?band mod WINOGRAD_ALPHA)
            * ?V ! (?band * C * ?P + k * ?P + ?b)"
      using lt lenM by (intro kernel_gemm_cell[OF band k b]) simp
    also have "?V ! (?band * C * ?P + k * ?P + ?b)
               = tile_acc cfg (tile_T1 cfg (padded_plane cfg inp k)
                           (WINOGRAD_M * (?b div ?WT)) (WINOGRAD_M * (?b mod ?WT)))
                         (?band div WINOGRAD_ALPHA) (?band mod WINOGRAD_ALPHA)"
      using lt lenV by (intro winograd_transform_in_nth[OF band k b]) simp
    finally show ?thesis
      by (simp only: bd dm)
  qed
  show ?thesis
    unfolding gather_temp_m_def
    by (intro map_cong refl) (simp add: cell)
qed

lemma padded_plane_interior:
  assumes "r < BOARD_SIZE cfg" and "c < BOARD_SIZE cfg"
  shows "padded_plane cfg inp k ! Suc r ! Suc c
         = inp ! (k * (BOARD_SIZE cfg * BOARD_SIZE cfg) + r * BOARD_SIZE cfg + c)"
proof -
  have "BOARD_SIZE cfg \<le> WINOGRAD_M * WINOGRAD_WTILES cfg"
    unfolding WINOGRAD_WTILES_def WINOGRAD_M_def by (auto split: if_splits)
  then have "Suc r < Wpad cfg" "Suc c < Wpad cfg"
    using assms by (simp_all add: Wpad_def)
  then show ?thesis
    using assms by (simp add: padded_plane_def)
qed

lemma leela_cfg_SQ2: "SQ2 leela_cfg * SQ2 leela_cfg = 2"
  by (simp add: leela_cfg_def)

text \<open>
  Claim C3, as amended. For every channel count \<open>C\<close> and every input, the input
  transform followed by the batched multiply with the weights of the centred unit kernel
  (in band \<open>(xi, nu)\<close> the identity matrix scaled by \<open>g xi * g nu\<close>, \<open>K = C\<close>) and by the
  output transform reproduces the input at every position \<open>(r, c)\<close> of the board and
  every channel \<open>k\<close>, the constants taken as exact reals with \<open>SQ2 * SQ2 = 2\<close>.
\<close>

theorem winograd_roundtrip_identity_kernel:
  assumes "SQ2 cfg * SQ2 cfg = 2"
    and "k < C" and "r < BOARD_SIZE cfg" and "c < BOARD_SIZE cfg"
    and "WINOGRAD_TILE * C * WINOGRAD_P cfg \<le> length V0"
    and "WINOGRAD_TILE * C * WINOGRAD_P cfg \<le> length M0"
    and "C * BOARD_SIZE cfg * BOARD_SIZE cfg \<le> length Y0"
  shows "winograd_roundtrip_kernel cfg inp C V0 M0 Y0
           ! (k * BOARD_SIZE cfg * BOARD_SIZE cfg + r * BOARD_SIZE cfg + c)
         = inp ! (k * BOARD_SIZE cfg * BOARD_SIZE cfg + r * BOARD_SIZE cfg + c)"
proof -
  have m: "r mod WINOGRAD_M < 4" "c mod WINOGRAD_M < 4"
    by (simp_all add: WINOGRAD_M_def)
  have "winograd_roundtrip_kernel cfg inp C V0 M0 Y0
           ! (k * BOARD_SIZE cfg * BOARD_SIZE cfg + r * BOARD_SIZE cfg + c)
        = padded_plane cfg inp k ! (WINOGRAD_M * (r div WINOGRAD_M) + Suc (r mod WINOGRAD_M))
            ! (WINOGRAD_M * (c div WINOGRAD_M) + Suc (c mod WINOGRAD_M))"
    unfolding winograd_roundtrip_kernel_def
    by (simp only: winograd_transform_out_nth[OF assms(2-4,7)]
        kernel_gather[OF assms(2) tile_coordinate_less[OF assms(3)] tile_coordinate_less[OF assms(4)]
          assms(5,6)]
        kernel_tile_out[OF assms(1) m])
  also have "\<dots> = padded_plane cfg inp k ! Suc r ! Suc c"
    by simp
  also have "\<dots> = inp ! (k * BOARD_SIZE cfg * BOARD_SIZE cfg + r * BOARD_SIZE cfg + c)"
    by (simp add: padded_plane_interior[OF assms(3,4)] mult.assoc)
  finally show ?thesis .
qed

text \<open>
  On the 19x19 board the single one at position \<open>(0, 0)\<close> comes back as one, and
  position \<open>(1, 1)\<close> as zero.
\<close>

theorem winograd_roundtrip_identity_kernel_witness:
  "winograd_roundtrip_kernel leela_cfg impulse_plane 1 (replicate 900 0) (replicate 900 0)
       (replicate 361 0) ! 0 = 1
   \<and> winograd_roundtrip_kernel leela_cfg impulse_plane 1 (replicate 900 0) (replicate 900 0)
       (replicate 361 0) ! 20 = 0"
proof -
  have h: "(0::nat) < 1" "WINOGRAD_TILE * 1 * WINOGRAD_P leela_cfg \<le> length (replicate 900 (0::real))"
    "1 * BOARD_SIZE leela_cfg * BOARD_SIZE leela_cfg \<le> length (replicate 361 (0::real))"
    "0 < BOARD_SIZE leela_cfg" "1 < BOARD_SIZE leela_cfg"
    by (simp_all add: leela_cfg_simps WINOGRAD_TILE_36)
  show ?thesis
    using winograd_roundtrip_identity_kernel[OF leela_cfg_SQ2 h(1) h(4) h(4) h(2) h(2) h(3),
        of impulse_plane]
      winograd_roundtrip_identity_kernel[OF leela_cfg_SQ2 h(1) h(5) h(5) h(2) h(2) h(3),
        of impulse_plane]
    by (simp add: leela_cfg_simps impulse_plane_def)
qed

section \<open>The forward pipeline\<close>

lemma all_zero_nth: "all_zero xs \<Longrightarrow> i < length xs \<Longrightarrow> xs ! i = 0"
  by (simp add: all_zero_def)

lemma all_zero_replicate [simp]: "all_zero (replicate n 0)"
  by (simp add: all_zero_def)

lemma all_zero_eq_replicate: "all_zero xs \<longleftrightarrow> xs = replicate (length xs) 0"
proof
  assume "all_zero xs"
  then show "xs = replicate (length xs) 0"
    by (intro nth_equalityI) (simp_all add: all_zero_nth)
next
  assume "xs = replicate (length xs) 0"
  then show "all_zero xs"
    by (metis all_zero_replicate)
qed

lemma winograd_convolve3_Some:
  assumes "0 < outputs"
  shows "\<exists>V1 M1 out1. winograd_convolve3 cfg outputs input U V0 M0 output = Some (V1, M1, out1)
           \<and> length out1 = length output"
  using assms
  by (simp add: winograd_convolve3_def Let_def WINOGRAD_ALPHA_6 length_winograd_transform_out)

lemma residual_block_Some:
  assumes "0 < m_input_channels pipe"
  shows "\<exists>st1. residual_block cfg pipe w i st = Some st1"
proof -
  obtain V1 M1 out1 where c1: "winograd_convolve3 cfg (m_input_channels pipe) (f_conv_out st)
      (m_conv_weights w ! i) (f_V st) (f_M st) (f_conv_in st) = Some (V1, M1, out1)"
    using winograd_convolve3_Some[OF assms] by blast
  obtain V2 M2 out2 where c2: "winograd_convolve3 cfg (m_input_channels pipe)
      (batchnorm (NUM_INTERSECTIONS cfg) (m_input_channels pipe) out1
         (m_batchnorm_means w ! i) (m_batchnorm_stddevs w ! i) None)
      (m_conv_weights w ! Suc i) V1 M1 (f_res st) = Some (V2, M2, out2)"
    using winograd_convolve3_Some[OF assms] by blast
  show ?thesis
    by (simp add: residual_block_def Let_def c1 c2)
qed

lemma residual_tower_Some:
  assumes "0 < m_input_channels pipe"
  shows "\<exists>st1. residual_tower cfg pipe w i st = Some st1"
  using assms
proof (induction cfg pipe w i st rule: residual_tower.induct)
  case (1 cfg pipe w i st)
  show ?case
  proof (cases "i < length (m_conv_weights w)")
    case True
    obtain st1 where b: "residual_block cfg pipe w i st = Some st1"
      using residual_block_Some[OF "1.prems"] by blast
    then show ?thesis
      using True "1.IH"[OF True b "1.prems"] by (subst residual_tower.simps) simp
  next
    case False
    then show ?thesis by (subst residual_tower.simps) simp
  qed
qed

lemma input_convolution_Some:
  assumes "0 < m_input_channels pipe"
  shows "\<exists>st0. input_convolution cfg pipe w input = Some st0"
proof -
  obtain V1 M1 out1 where "winograd_convolve3 cfg (m_input_channels pipe) input (m_conv_weights w ! 0)
       (replicate (WINOGRAD_TILE * max (m_input_channels pipe) (INPUT_CHANNELS cfg) * WINOGRAD_P cfg) 0)
       (replicate (WINOGRAD_TILE * m_input_channels pipe * WINOGRAD_P cfg) 0)
       (replicate (m_input_channels pipe * NUM_INTERSECTIONS cfg) 0) = Some (V1, M1, out1)"
    using winograd_convolve3_Some[OF assms] by blast
  then show ?thesis
    by (simp add: input_convolution_def Let_def)
qed

lemma convolve_1_zero:
  assumes w: "all_zero weights" and b: "all_zero biases" and ne: "biases \<noteq> []"
    and ob: "outputs \<le> length biases"
    and len: "outputs * NUM_INTERSECTIONS cfg = length output"
  shows "convolve_1 cfg outputs input weights biases output = Some (replicate (length output) 0)"
proof -
  let ?NI = "BOARD_SIZE cfg * BOARD_SIZE cfg"
  let ?Cin = "length weights div length biases"
  let ?col = "im2col_1 cfg ?Cin input (replicate (?Cin * BOARD_SIZE cfg * BOARD_SIZE cfg) 0)"
  let ?out1 = "cblas_sgemm False False outputs ?NI ?Cin 1 weights 0 ?Cin ?col 0 ?NI 0 output 0 ?NI"
  let ?out2 = "fold (\<lambda>oi. fold (\<lambda>b out. out[oi * ?NI + b := out ! (oi * ?NI + b) + biases ! oi])
                       [0..<?NI]) [0..<outputs] ?out1"
  have len': "outputs * ?NI = length output"
    using len by (simp add: NUM_INTERSECTIONS_def)
  have wz: "weights ! (oi * ?Cin + l) = 0" if "oi < outputs" "l < ?Cin" for oi l
  proof -
    have "oi * ?Cin + l < outputs * ?Cin"
      using that by (rule cell_index_less)
    also have "\<dots> \<le> length biases * ?Cin"
      using ob by simp
    also have "\<dots> \<le> length weights"
      by (simp add: mult.commute)
    finally show ?thesis
      using w by (simp add: all_zero_nth)
  qed
  have out1: "?out1 ! idx = 0" if "idx < length output" for idx
  proof -
    have d: "idx div ?NI < outputs"
      using that len' by (simp add: less_mult_imp_div_less)
    have "(\<Sum>l<?Cin. weights ! (idx div ?NI * ?Cin + l) * ?col ! (l * ?NI + idx mod ?NI)) = 0"
      by (rule sum.neutral) (simp add: wz[OF d])
    then show ?thesis
      using that len' by (simp add: cblas_sgemm_beta0_nth)
  qed
  have l1: "length ?out1 = length output"
    by (rule length_cblas_sgemm)
  have out2: "?out2 ! idx = 0" if "idx < length output" for idx
  proof -
    have d: "idx div ?NI < outputs"
      using that len' by (simp add: less_mult_imp_div_less)
    then have "biases ! (idx div ?NI) = 0"
      using b ob by (simp add: all_zero_nth)
    then show ?thesis
      using fold2_modify_nth[of idx ?out1 ?NI "\<lambda>oi i x. x + biases ! oi" outputs]
        that l1 len' out1[OF that]
      by simp
  qed
  have "length ?out2 = length output"
    using l1 by (simp add: length_fold2_modify)
  then have "?out2 = replicate (length output) 0"
    by (intro nth_equalityI) (simp_all add: out2)
  then show ?thesis
    using ne len' by (simp add: convolve_1_def Let_def)
qed






lemma zero_example_pipe_pushed:
  "push_weights 3 1 1 zero_example_weights (initialize 1 fresh_pipe) = Some zero_example_pipe"
  by (simp add: push_weights_def initialize_def fresh_pipe_def zero_example_pipe_def
      zero_example_weights_def resize_def)

text \<open>
  Claim C9. On an initialised pipeline whose weights were pushed, if the input tensor
  and every entry of the weight set (convolution weights, batch-normalisation means and
  scales, SE weights and biases, head weights), the head weights of the pipeline and its
  head biases are zero, then \<^verbatim>\<open>forward\<close> returns, and every cell of the policy output and of
  the value output is zero. The head bias vectors hold at least one entry for each head
  channel, and the caller's output vectors have the lengths \<^verbatim>\<open>convolve\<close> asserts.
\<close>

theorem forward_zero:
  assumes "m_weights pipe = Some w" and "0 < m_input_channels pipe"
    and "all_zero input" and "zero_weight_set w"
    and "all_zero (m_conv_pol_w pipe)" and "all_zero (m_conv_pol_b pipe)"
    and "all_zero (m_conv_val_w pipe)" and "all_zero (m_conv_val_b pipe)"
    and "m_conv_pol_b pipe \<noteq> []" and "OUTPUTS_POLICY cfg \<le> length (m_conv_pol_b pipe)"
    and "m_conv_val_b pipe \<noteq> []" and "OUTPUTS_VALUE cfg \<le> length (m_conv_val_b pipe)"
    and "length output_pol = OUTPUTS_POLICY cfg * NUM_INTERSECTIONS cfg"
    and "length output_val = OUTPUTS_VALUE cfg * NUM_INTERSECTIONS cfg"
  shows "forward cfg pipe input output_pol output_val
         = Some (replicate (length output_pol) 0, replicate (length output_val) 0)"
proof -
  obtain st0 where s0: "input_convolution cfg pipe w input = Some st0"
    using input_convolution_Some[OF assms(2)] by blast
  obtain st where s1: "residual_tower cfg pipe w 1 st0 = Some st"
    using residual_tower_Some[OF assms(2)] by blast
  have pol: "convolve_1 cfg (OUTPUTS_POLICY cfg) (f_conv_out st) (m_conv_pol_w pipe)
               (m_conv_pol_b pipe) output_pol = Some (replicate (length output_pol) 0)"
    using assms(5,6,9,10,13) by (intro convolve_1_zero) simp_all
  have val: "convolve_1 cfg (OUTPUTS_VALUE cfg) (f_conv_out st) (m_conv_val_w pipe)
               (m_conv_val_b pipe) output_val = Some (replicate (length output_val) 0)"
    using assms(7,8,11,12,14) by (intro convolve_1_zero) simp_all
  show ?thesis
    unfolding forward_def
    by (simp add: assms(1) s0 s1[unfolded One_nat_def] pol val)
qed

text \<open>The property on the example pipeline, with output vectors that hold 5 and 7 before the call.\<close>

theorem forward_zero_witness:
  "forward example_cfg zero_example_pipe [0] [5] [7] = Some ([0], [0])"
proof -
  have "forward example_cfg zero_example_pipe [0] [5] [7]
        = Some (replicate (length [5::real]) 0, replicate (length [7::real]) 0)"
    by (rule forward_zero[where w = zero_example_weights])
      (simp_all add: zero_example_pipe_def zero_example_weights_def zero_weight_set_def
        all_zero_def example_cfg_simps)
  then show ?thesis by simp
qed









end
